theory Spec2Isabelle
  imports Complex_Main "HOL-Library.Monad_Syntax"
begin

text \<open>
  The program is the Angular component \<^verbatim>\<open>AppComponent\<close> of \<^verbatim>\<open>src/app.component.ts\<close>.
\<close>

section \<open>Numbers\<close>

text \<open>
  A number of the source is an IEEE 754 double. It is modelled as the rational it stands
  for, or one of the two infinities, or \<^verbatim>\<open>NaN\<close>; the two zeros are one value, as they are
  for \<^verbatim>\<open>===\<close> and for every operation of the program. The result of an operation is the
  exact result rounded to the nearest double, a tie going to the even significand.
\<close>

datatype number = Finite rat | PosInf | NegInf | NaN

text \<open>\<open>ilog2 n\<close> is the floor and \<open>clog2 n\<close> the ceiling of the binary logarithm.\<close>

fun ilog2 :: "nat \<Rightarrow> nat" where
  "ilog2 n = (if n < 2 then 0 else Suc (ilog2 (n div 2)))"

declare ilog2.simps [simp del]

definition clog2 :: "nat \<Rightarrow> nat" where
  "clog2 n = (if n \<le> 1 then 0 else Suc (ilog2 (n - 1)))"

text \<open>The binary exponent of a positive rational: \<open>2 ^ exponent a \<le> a < 2 ^ (exponent a + 1)\<close>.\<close>

definition exponent :: "rat \<Rightarrow> int" where
  "exponent a =
     (if 1 \<le> a then int (ilog2 (nat \<lfloor>a\<rfloor>)) else - int (clog2 (nat \<lceil>1 / a\<rceil>)))"

definition pow2 :: "int \<Rightarrow> rat" where
  "pow2 k = (if 0 \<le> k then 2 ^ nat k else 1 / 2 ^ nat (- k))"

definition round_half_even :: "rat \<Rightarrow> int" where
  "round_half_even q =
     (let n = \<lfloor>q\<rfloor>; d = q - of_int n
      in if d < 1 / 2 then n else if 1 / 2 < d then n + 1 else if even n then n else n + 1)"

text \<open>
  Rounding to a double: 53 significant bits, the unit in the last place never below
  \<open>2 ^ - 1074\<close>, and an infinity from \<open>2 ^ 1024\<close> on.
\<close>

definition round_double :: "rat \<Rightarrow> number" where
  "round_double x =
     (if x = 0 then Finite 0
      else let a = \<bar>x\<bar>;
               u = max (exponent a - 52) (- 1074);
               r = of_int (round_half_even (a / pow2 u)) * pow2 u
           in if 2 ^ 1024 \<le> r then (if 0 < x then PosInf else NegInf)
              else Finite (if 0 < x then r else - r))"

text \<open>\<^verbatim>\<open>x > 0\<close>, \<^verbatim>\<open>x + y\<close>, \<^verbatim>\<open>-x\<close>, \<^verbatim>\<open>x * y\<close> and \<^verbatim>\<open>x < y\<close>.\<close>

fun positive :: "number \<Rightarrow> bool" where
  "positive (Finite a) = (0 < a)"
| "positive PosInf = True"
| "positive NegInf = False"
| "positive NaN = False"

fun js_add :: "number \<Rightarrow> number \<Rightarrow> number" where
  "js_add (Finite a) (Finite b) = round_double (a + b)"
| "js_add NaN y = NaN"
| "js_add x NaN = NaN"
| "js_add PosInf NegInf = NaN"
| "js_add NegInf PosInf = NaN"
| "js_add PosInf y = PosInf"
| "js_add x PosInf = PosInf"
| "js_add NegInf y = NegInf"
| "js_add x NegInf = NegInf"

fun js_neg :: "number \<Rightarrow> number" where
  "js_neg (Finite a) = Finite (- a)"
| "js_neg PosInf = NegInf"
| "js_neg NegInf = PosInf"
| "js_neg NaN = NaN"

fun js_mul :: "number \<Rightarrow> number \<Rightarrow> number" where
  "js_mul (Finite a) (Finite b) = round_double (a * b)"
| "js_mul NaN y = NaN"
| "js_mul x NaN = NaN"
| "js_mul PosInf y = (if y = Finite 0 then NaN else if positive y then PosInf else NegInf)"
| "js_mul NegInf y = (if y = Finite 0 then NaN else if positive y then NegInf else PosInf)"
| "js_mul x PosInf = (if x = Finite 0 then NaN else if positive x then PosInf else NegInf)"
| "js_mul x NegInf = (if x = Finite 0 then NaN else if positive x then NegInf else PosInf)"

fun js_less :: "number \<Rightarrow> number \<Rightarrow> bool" where
  "js_less (Finite a) (Finite b) = (a < b)"
| "js_less NaN y = False"
| "js_less x NaN = False"
| "js_less NegInf NegInf = False"
| "js_less NegInf y = True"
| "js_less PosInf y = False"
| "js_less x PosInf = True"
| "js_less x NegInf = False"

text \<open>The operators of the source are written with the usual symbols.\<close>

instantiation number :: "{zero, plus, minus, uminus, times, ord}"
begin

definition zero_number :: number where
  "zero_number = Finite 0"

definition plus_number :: "number \<Rightarrow> number \<Rightarrow> number" where
  "plus_number x y = js_add x y"

definition uminus_number :: "number \<Rightarrow> number" where
  "uminus_number x = js_neg x"

definition minus_number :: "number \<Rightarrow> number \<Rightarrow> number" where
  "minus_number x y = js_add x (js_neg y)"

definition times_number :: "number \<Rightarrow> number \<Rightarrow> number" where
  "times_number x y = js_mul x y"

definition less_number :: "number \<Rightarrow> number \<Rightarrow> bool" where
  "less_number x y = js_less x y"

definition less_eq_number :: "number \<Rightarrow> number \<Rightarrow> bool" where
  "less_eq_number x y = (js_less x y \<or> (x = y \<and> x \<noteq> NaN))"

instance ..

end

text \<open>Truthiness of a number: every number but 0 and \<^verbatim>\<open>NaN\<close>.\<close>

definition truthy_num :: "number \<Rightarrow> bool" where
  "truthy_num x = (x \<noteq> Finite 0 \<and> x \<noteq> NaN)"

section \<open>Values of the host language\<close>

text \<open>
  A string is a list of characters; only its emptiness and its concatenation matter.
  A signal typed \<^verbatim>\<open>number | null\<close> is a \<open>number option\<close> (\<open>None\<close> is \<^verbatim>\<open>null\<close>).
  A property of a row object can also be missing altogether (\<^verbatim>\<open>undefined\<close>), which is
  what a write past the end of an array produces, so a row's field is a \<open>jsval\<close>.
\<close>

datatype 'a jsval = Undefined | Null | Val 'a

text \<open>
  An array is a list of slots. A slot is a hole of a sparse array (\<open>Hole\<close>), the value
  \<^verbatim>\<open>undefined\<close> (\<open>Undef\<close>) or an object (\<open>Row\<close>).
\<close>

datatype 'a slot = Hole | Undef | Row 'a

text \<open>\<^verbatim>\<open>x ?? 0\<close> on a signal and on a property of a row.\<close>

fun or0 :: "number option \<Rightarrow> number" where
  "or0 None = 0"
| "or0 (Some n) = n"

fun nullish0 :: "number jsval \<Rightarrow> number" where
  "nullish0 (Val n) = n"
| "nullish0 Null = 0"
| "nullish0 Undefined = 0"

text \<open>Truthiness of a string property.\<close>

fun truthy_str :: "string jsval \<Rightarrow> bool" where
  "truthy_str (Val t) = (t \<noteq> [])"
| "truthy_str Null = False"
| "truthy_str Undefined = False"

text \<open>
  \<^verbatim>\<open>[...xs]\<close> copies an array through its iterator, which reads a hole as
  \<^verbatim>\<open>undefined\<close>: the copy is dense.
\<close>

fun spread_slot :: "'a slot \<Rightarrow> 'a slot" where
  "spread_slot Hole = Undef"
| "spread_slot Undef = Undef"
| "spread_slot (Row r) = Row r"

definition spread :: "'a slot list \<Rightarrow> 'a slot list" where
  "spread xs = map spread_slot xs"

text \<open>
  \<^verbatim>\<open>xs[i]\<close> read: \<open>None\<close> is \<^verbatim>\<open>undefined\<close> (a hole, an \<^verbatim>\<open>undefined\<close> element, or an
  index that is not an element of the array).
\<close>

definition js_get :: "'a slot list \<Rightarrow> int \<Rightarrow> 'a option" where
  "js_get xs i =
     (if 0 \<le> i \<and> nat i < length xs
      then (case xs ! nat i of Row r \<Rightarrow> Some r | Undef \<Rightarrow> None | Hole \<Rightarrow> None)
      else None)"

text \<open>
  \<^verbatim>\<open>xs[i] = v\<close> write. Inside the array it replaces the element. At or past the end, up
  to the largest array index \<open>2^32 - 2\<close>, the array grows to length \<open>i + 1\<close>, the new
  positions before \<open>i\<close> being holes. A negative index, and an index from \<open>2^32 - 1\<close> on,
  names an ordinary property of the array object, which none of the array operations of
  the program (\<^verbatim>\<open>reduce\<close>, \<^verbatim>\<open>forEach\<close>, \<^verbatim>\<open>filter\<close>, spread, \<^verbatim>\<open>length\<close>) reads: the
  list of elements stays as it is.
\<close>

definition js_set :: "'a slot list \<Rightarrow> int \<Rightarrow> 'a \<Rightarrow> 'a slot list" where
  "js_set xs i v =
     (if i < 0 then xs
      else if nat i < length xs then xs[nat i := Row v]
      else if i < 4294967295 then xs @ replicate (nat i - length xs) Hole @ [Row v]
      else xs)"

text \<open>
  \<^verbatim>\<open>xs.reduce(f, init)\<close> and \<^verbatim>\<open>xs.forEach(f)\<close>, for a callback that reads a property of
  its element first (all callbacks of the program do): a hole is skipped, and on an
  \<^verbatim>\<open>undefined\<close> element the property read throws a \<^verbatim>\<open>TypeError\<close>, which is the result
  \<open>None\<close>.
\<close>

fun reduce :: "('b \<Rightarrow> 'a \<Rightarrow> 'b) \<Rightarrow> 'b \<Rightarrow> 'a slot list \<Rightarrow> 'b option" where
  "reduce f acc [] = Some acc"
| "reduce f acc (Hole # xs) = reduce f acc xs"
| "reduce f acc (Undef # xs) = None"
| "reduce f acc (Row r # xs) = reduce f (f acc r) xs"

text \<open>
  \<^verbatim>\<open>xs.filter((_, i) => i !== index)\<close>: the elements whose position is not \<open>index\<close>, in
  order; \<^verbatim>\<open>filter\<close> skips holes, so the result is dense. The first argument is the
  position of the head of the list.
\<close>

fun filter_index :: "nat \<Rightarrow> int \<Rightarrow> 'a slot list \<Rightarrow> 'a slot list" where
  "filter_index k index [] = []"
| "filter_index k index (Hole # xs) = filter_index (Suc k) index xs"
| "filter_index k index (x # xs) =
     (if int k \<noteq> index then x # filter_index (Suc k) index xs
      else filter_index (Suc k) index xs)"

text \<open>The decimal numeral that a template literal prints for a natural number.\<close>

definition digit_char :: "nat \<Rightarrow> char" where
  "digit_char d = ''0123456789'' ! d"

fun decimal :: "nat \<Rightarrow> string" where
  "decimal n = (if n < 10 then [digit_char n] else decimal (n div 10) @ [digit_char (n mod 10)])"

declare decimal.simps [simp del]

section \<open>Data model\<close>

record cash_entry =
  denomination :: "number jsval"
  quantity :: "number jsval"

record expense_entry =
  detail :: "string jsval"
  amount :: "number jsval"

text \<open>
  \<^verbatim>\<open>LogEntry\<close>. Its fields \<^verbatim>\<open>closerName\<close>, \<^verbatim>\<open>shift\<close> and \<^verbatim>\<open>amount\<close> carry the prefix
  \<open>log_\<close> here, the plain names being those of the signals and of the expense row.
\<close>

record log_entry =
  day :: string
  log_closerName :: string
  log_shift :: string
  accountingImputation :: string
  accountEntry :: string
  log_amount :: number

datatype status = Idle | Sending | Success | Error

text \<open>
  The places of the source that write \<^verbatim>\<open>webhookStatus\<close>: the first statement of
  \<^verbatim>\<open>submitForm\<close>, its validation branch, its empty-batch branch, the \<^verbatim>\<open>next\<close> and the
  \<^verbatim>\<open>error\<close> callback of the request, and the function given to \<^verbatim>\<open>setTimeout\<close>.
\<close>

datatype site = SubmitStart | SubmitInvalid | SubmitEmpty | PostNext | PostError | AutoIdle

text \<open>
  The signals of the component. \<^verbatim>\<open>shift\<close> is a string: its declared type admits the
  two literals only, but \<^verbatim>\<open>onShiftChange\<close> stores whatever value the select element
  has, and \<^verbatim>\<open>submitForm\<close> tests it for emptiness. \<open>statusLog\<close> and \<open>errorLog\<close> are not
  signals: \<open>statusLog\<close> records every write of \<^verbatim>\<open>webhookStatus\<close> (the writing place, the
  value before, the value written) and \<open>errorLog\<close> every value written to
  \<^verbatim>\<open>webhookError\<close>, oldest first, and no function reads them.
\<close>

record app_state =
  closerName :: string
  shift :: string
  firstDataIncome :: "number option"
  pedidosYaIncome :: "number option"
  mercadoPagoIncome :: "number option"
  dailySummary :: "number option"
  cashEntries :: "cash_entry slot list"
  expenses :: "expense_entry slot list"
  webhookStatus :: status
  webhookError :: "string option"
  logHistory :: "log_entry list"
  statusLog :: "(site \<times> status \<times> status) list"
  errorLog :: "string option list"

definition manana :: string where
  "manana = ''ma'' @ [CHR 0xF1] @ ''ana''"

definition DEFAULT_CASH_ENTRIES :: "cash_entry slot list" where
  "DEFAULT_CASH_ENTRIES =
     [Row \<lparr>denomination = Val (Finite 20000), quantity = Null\<rparr>,
      Row \<lparr>denomination = Val (Finite 10000), quantity = Null\<rparr>,
      Row \<lparr>denomination = Val (Finite 2000), quantity = Null\<rparr>]"

definition blank_expense :: expense_entry where
  "blank_expense = \<lparr>detail = Val [], amount = Null\<rparr>"

text \<open>The component as its field initialisers leave it.\<close>

definition initial_state :: app_state where
  "initial_state =
     \<lparr>closerName = [], shift = manana,
      firstDataIncome = None, pedidosYaIncome = None, mercadoPagoIncome = None,
      dailySummary = None,
      cashEntries = DEFAULT_CASH_ENTRIES, expenses = [Row blank_expense],
      webhookStatus = Idle, webhookError = None, logHistory = [], statusLog = [],
      errorLog = []\<rparr>"

section \<open>Computed signals\<close>

definition cashSubtotal :: "app_state \<Rightarrow> number option" where
  "cashSubtotal s =
     reduce (\<lambda>acc entry.
               let d = nullish0 (denomination entry);
                   q = nullish0 (quantity entry)
               in acc + d * q)
            0 (cashEntries s)"

definition expensesSubtotal :: "app_state \<Rightarrow> number option" where
  "expensesSubtotal s =
     reduce (\<lambda>acc expense. let a = nullish0 (amount expense) in acc + a) 0 (expenses s)"

definition digitalIncomeSubtotal :: "app_state \<Rightarrow> number" where
  "digitalIncomeSubtotal s =
     (let firstData = or0 (firstDataIncome s);
          pedidosYa = or0 (pedidosYaIncome s);
          mercadoPago = or0 (mercadoPagoIncome s)
      in firstData + pedidosYa + mercadoPago)"

text \<open>
  A computed signal that reads a throwing computed signal throws as well; the operands are
  read from left to right.
\<close>

definition totalIncome :: "app_state \<Rightarrow> number option" where
  "totalIncome s = do { c \<leftarrow> cashSubtotal s; Some (digitalIncomeSubtotal s + c) }"

definition netTotal :: "app_state \<Rightarrow> number option" where
  "netTotal s = do { t \<leftarrow> totalIncome s; e \<leftarrow> expensesSubtotal s; Some (t - e) }"

definition absoluteTotal :: "app_state \<Rightarrow> number option" where
  "absoluteTotal s = do { t \<leftarrow> totalIncome s; e \<leftarrow> expensesSubtotal s; Some (t + e) }"

definition difference :: "app_state \<Rightarrow> number option" where
  "difference s = do { a \<leftarrow> absoluteTotal s; Some (a - or0 (dailySummary s)) }"

section \<open>Input handlers\<close>

text \<open>
  What a handler reads of its event: the \<^verbatim>\<open>value\<close> and the \<^verbatim>\<open>valueAsNumber\<close> of the
  target element. \<^verbatim>\<open>valueAsNumber\<close> of a number input is a finite number or \<^verbatim>\<open>NaN\<close>.
\<close>

record dom_event =
  target_value :: string
  target_valueAsNumber :: number

definition getNumberValue :: "dom_event \<Rightarrow> number option" where
  "getNumberValue event =
     (let v = target_valueAsNumber event in if v = NaN then None else Some v)"

definition getStringValue :: "dom_event \<Rightarrow> string" where
  "getStringValue event = target_value event"

definition onNameKeyup :: "dom_event \<Rightarrow> app_state \<Rightarrow> app_state" where
  "onNameKeyup event s = s\<lparr>closerName := getStringValue event\<rparr>"

definition onShiftChange :: "dom_event \<Rightarrow> app_state \<Rightarrow> app_state" where
  "onShiftChange event s = s\<lparr>shift := target_value event\<rparr>"

definition onFirstDataKeyup :: "dom_event \<Rightarrow> app_state \<Rightarrow> app_state" where
  "onFirstDataKeyup event s = s\<lparr>firstDataIncome := getNumberValue event\<rparr>"

definition onPedidosYaKeyup :: "dom_event \<Rightarrow> app_state \<Rightarrow> app_state" where
  "onPedidosYaKeyup event s = s\<lparr>pedidosYaIncome := getNumberValue event\<rparr>"

definition onMercadoPagoKeyup :: "dom_event \<Rightarrow> app_state \<Rightarrow> app_state" where
  "onMercadoPagoKeyup event s = s\<lparr>mercadoPagoIncome := getNumberValue event\<rparr>"

definition onDailySummaryKeyup :: "dom_event \<Rightarrow> app_state \<Rightarrow> app_state" where
  "onDailySummaryKeyup event s = s\<lparr>dailySummary := getNumberValue event\<rparr>"

text \<open>A \<^verbatim>\<open>number | null\<close> stored into a property of a row.\<close>

fun of_nullable :: "'a option \<Rightarrow> 'a jsval" where
  "of_nullable None = Null"
| "of_nullable (Some v) = Val v"

text \<open>
  \<^verbatim>\<open>{ ...x }\<close> for \<open>x\<close> read from an array: the properties of the object, none for
  \<^verbatim>\<open>undefined\<close>.
\<close>

definition no_cash_props :: cash_entry where
  "no_cash_props = \<lparr>denomination = Undefined, quantity = Undefined\<rparr>"

definition no_expense_props :: expense_entry where
  "no_expense_props = \<lparr>detail = Undefined, amount = Undefined\<rparr>"

fun obj_spread :: "'r \<Rightarrow> 'r option \<Rightarrow> 'r" where
  "obj_spread none None = none"
| "obj_spread none (Some r) = r"

datatype cash_field = Denomination | Quantity

fun with_cash_field :: "cash_field \<Rightarrow> number jsval \<Rightarrow> cash_entry \<Rightarrow> cash_entry" where
  "with_cash_field Denomination v r = r\<lparr>denomination := v\<rparr>"
| "with_cash_field Quantity v r = r\<lparr>quantity := v\<rparr>"

definition onCashEntryKeyup :: "int \<Rightarrow> cash_field \<Rightarrow> dom_event \<Rightarrow> app_state \<Rightarrow> app_state" where
  "onCashEntryKeyup index field event s =
     (let v = getNumberValue event;
          newEntries = spread (cashEntries s);
          newEntries = js_set newEntries index
             (with_cash_field field (of_nullable v)
                (obj_spread no_cash_props (js_get newEntries index)))
      in s\<lparr>cashEntries := newEntries\<rparr>)"

definition onExpenseDetailKeyup :: "int \<Rightarrow> dom_event \<Rightarrow> app_state \<Rightarrow> app_state" where
  "onExpenseDetailKeyup index event s =
     (let v = getStringValue event;
          newEntries = spread (expenses s);
          newEntries = js_set newEntries index
             ((obj_spread no_expense_props (js_get newEntries index))\<lparr>detail := Val v\<rparr>)
      in s\<lparr>expenses := newEntries\<rparr>)"

definition onExpenseAmountKeyup :: "int \<Rightarrow> dom_event \<Rightarrow> app_state \<Rightarrow> app_state" where
  "onExpenseAmountKeyup index event s =
     (let v = getNumberValue event;
          newEntries = spread (expenses s);
          newEntries = js_set newEntries index
             ((obj_spread no_expense_props (js_get newEntries index))\<lparr>amount := of_nullable v\<rparr>)
      in s\<lparr>expenses := newEntries\<rparr>)"

definition addCashEntry :: "app_state \<Rightarrow> app_state" where
  "addCashEntry s =
     s\<lparr>cashEntries := spread (cashEntries s) @ [Row \<lparr>denomination = Null, quantity = Null\<rparr>]\<rparr>"

definition removeCashEntry :: "int \<Rightarrow> app_state \<Rightarrow> app_state" where
  "removeCashEntry index s = s\<lparr>cashEntries := filter_index 0 index (cashEntries s)\<rparr>"

definition addExpense :: "app_state \<Rightarrow> app_state" where
  "addExpense s = s\<lparr>expenses := spread (expenses s) @ [Row \<lparr>detail = Val [], amount = Null\<rparr>]\<rparr>"

definition removeExpense :: "int \<Rightarrow> app_state \<Rightarrow> app_state" where
  "removeExpense index s = s\<lparr>expenses := filter_index 0 index (expenses s)\<rparr>"

section \<open>Submission\<close>

definition set_webhookStatus :: "site \<Rightarrow> status \<Rightarrow> app_state \<Rightarrow> app_state" where
  "set_webhookStatus pl v s =
     s\<lparr>webhookStatus := v, statusLog := statusLog s @ [(pl, webhookStatus s, v)]\<rparr>"

definition set_webhookError :: "string option \<Rightarrow> app_state \<Rightarrow> app_state" where
  "set_webhookError v s = s\<lparr>webhookError := v, errorLog := errorLog s @ [v]\<rparr>"

definition msg_validation :: string where
  "msg_validation = ''Por favor, complete su nombre y el turno antes de enviar.''"

definition msg_empty :: string where
  "msg_empty = ''No hay movimientos para registrar.''"

definition msg_network :: string where
  "msg_network = ''Error de red/CORS. Verifique la conexi'' @ [CHR 0xF3] @ ''n.''"

definition msg_server :: "nat \<Rightarrow> string" where
  "msg_server code = ''Error del servidor: '' @ decimal code @ ''.''"

text \<open>What a template literal prints for a string property.\<close>

fun text_of :: "string jsval \<Rightarrow> string" where
  "text_of (Val t) = t"
| "text_of Null = ''null''"
| "text_of Undefined = ''undefined''"

text \<open>
  The body of the \<^verbatim>\<open>forEach\<close> over the expenses. A \<^verbatim>\<open>null\<close> or missing amount is
  falsy, so the test fails before the amount is compared or negated.
\<close>

definition push_expense ::
    "string \<Rightarrow> string \<Rightarrow> string \<Rightarrow> log_entry list \<Rightarrow> expense_entry \<Rightarrow> log_entry list" where
  "push_expense now name sh acc expense =
     (case amount expense of
        Val a \<Rightarrow>
          if truthy_num a \<and> 0 < a \<and> truthy_str (detail expense)
          then acc @ [\<lparr>day = now, log_closerName = name, log_shift = sh,
                        accountingImputation = ''Gastos Operativos'',
                        accountEntry = ''Gasto: '' @ text_of (detail expense),
                        log_amount = - a\<rparr>]
          else acc
      | Null \<Rightarrow> acc
      | Undefined \<Rightarrow> acc)"

text \<open>
  Lines 168 to 198: the batch \<^verbatim>\<open>newLogEntries\<close>, or \<open>None\<close> when a computed signal or
  the \<^verbatim>\<open>forEach\<close> throws. \<open>now\<close> is the timestamp \<^verbatim>\<open>new Date().toISOString()\<close>.
\<close>

definition newLogEntries :: "string \<Rightarrow> app_state \<Rightarrow> log_entry list option" where
  "newLogEntries now s =
     (let name = closerName s;
          sh = shift s;
          l = [];
          l = (if 0 < or0 (firstDataIncome s)
               then l @ [\<lparr>day = now, log_closerName = name, log_shift = sh,
                           accountingImputation = ''Ventas con Tarjeta'',
                           accountEntry = ''Ingreso: First Data'',
                           log_amount = the (firstDataIncome s)\<rparr>]
               else l);
          l = (if 0 < or0 (pedidosYaIncome s)
               then l @ [\<lparr>day = now, log_closerName = name, log_shift = sh,
                           accountingImputation = ''Ventas Delivery'',
                           accountEntry = ''Ingreso: PedidosYa'',
                           log_amount = the (pedidosYaIncome s)\<rparr>]
               else l);
          l = (if 0 < or0 (mercadoPagoIncome s)
               then l @ [\<lparr>day = now, log_closerName = name, log_shift = sh,
                           accountingImputation = ''Ventas Digitales'',
                           accountEntry = ''Ingreso: Mercado Pago'',
                           log_amount = the (mercadoPagoIncome s)\<rparr>]
               else l)
      in do {
        cash \<leftarrow> cashSubtotal s;
        let l = (if 0 < cash
                 then l @ [\<lparr>day = now, log_closerName = name, log_shift = sh,
                             accountingImputation = ''Ventas en Efectivo'',
                             accountEntry = ''Ingreso: Efectivo'',
                             log_amount = cash\<rparr>]
                 else l);
        l \<leftarrow> reduce (push_expense now name sh) l (expenses s);
        if dailySummary s \<noteq> None
        then do {
          d \<leftarrow> difference s;
          Some (l @ [\<lparr>day = now, log_closerName = name, log_shift = sh,
                       accountingImputation = ''Cierre'',
                       accountEntry = ''Resumen Diario (Manual)'',
                       log_amount = the (dailySummary s)\<rparr>,
                     \<lparr>day = now, log_closerName = name, log_shift = sh,
                       accountingImputation = ''Cierre'',
                       accountEntry = ''Diferencia de Caja'',
                       log_amount = d\<rparr>])
        }
        else Some l
      })"

definition resetForm :: "app_state \<Rightarrow> app_state" where
  "resetForm s =
     s\<lparr>closerName := [], shift := manana,
       firstDataIncome := None, pedidosYaIncome := None, mercadoPagoIncome := None,
       dailySummary := None,
       cashEntries := DEFAULT_CASH_ENTRIES,
       expenses := [Row \<lparr>detail = Val [], amount = Null\<rparr>]\<rparr>"

text \<open>
  How the synchronous part of \<^verbatim>\<open>submitForm\<close> ends: it returns without a request, it
  issues the request that carries the batch, or an exception leaves it.
\<close>

datatype outcome = NoRequest | Request "log_entry list" | TypeError

definition submitForm :: "string \<Rightarrow> app_state \<Rightarrow> app_state \<times> outcome" where
  "submitForm now s =
     (let s = set_webhookStatus SubmitStart Sending s;
          s = set_webhookError None s
      in if closerName s = [] \<or> shift s = []
         then (let s = set_webhookStatus SubmitInvalid Error s;
                   s = set_webhookError (Some msg_validation) s
               in (s, NoRequest))
         else (case newLogEntries now s of
                 None \<Rightarrow> (s, TypeError)
               | Some batch \<Rightarrow>
                   if length batch = 0
                   then (let s = set_webhookStatus SubmitEmpty Error s;
                             s = set_webhookError (Some msg_empty) s
                         in (s, NoRequest))
                   else (s, Request batch)))"

text \<open>The \<^verbatim>\<open>next\<close> callback, up to the call of \<^verbatim>\<open>setTimeout\<close>.\<close>

definition post_next :: "log_entry list \<Rightarrow> app_state \<Rightarrow> app_state" where
  "post_next batch s =
     (let s = set_webhookStatus PostNext Success s;
          s = s\<lparr>logHistory := batch @ logHistory s\<rparr>
      in resetForm s)"

text \<open>The \<^verbatim>\<open>error\<close> callback; \<open>code\<close> is \<^verbatim>\<open>err.status\<close>.\<close>

definition post_error :: "nat \<Rightarrow> app_state \<Rightarrow> app_state" where
  "post_error code s =
     (let s = set_webhookStatus PostError Error s;
          message = ''Error al enviar. Intente de nuevo.'';
          message = (if code = 0 then msg_network else msg_server code)
      in set_webhookError (Some message) s)"

text \<open>The function given to \<^verbatim>\<open>setTimeout\<close>, and the delay given with it.\<close>

definition auto_idle :: "app_state \<Rightarrow> app_state" where
  "auto_idle s = set_webhookStatus AutoIdle Idle s"

definition auto_idle_delay :: nat where
  "auto_idle_delay = 5000"

section \<open>The component in its environment\<close>

text \<open>
  Handlers run to completion, one at a time. Between two handlers the environment holds
  the requests that were issued and have not completed, each with the batch its callbacks
  captured, and the delays of the timers that were set and have not fired.
\<close>

record world =
  app :: app_state
  inflight :: "log_entry list list"
  timers :: "nat list"

definition initial_world :: world where
  "initial_world = \<lparr>app = initial_state, inflight = [], timers = []\<rparr>"

text \<open>
  What can happen next: a user action of the rendering layer, the completion of the
  \<open>k\<close>-th pending request (with success, or with an error that carries a status), or the
  firing of the oldest timer (all timers have the same delay).
\<close>

datatype action =
    NameKeyup dom_event
  | ShiftChange dom_event
  | FirstDataKeyup dom_event
  | PedidosYaKeyup dom_event
  | MercadoPagoKeyup dom_event
  | DailySummaryKeyup dom_event
  | CashEntryKeyup int cash_field dom_event
  | ExpenseDetailKeyup int dom_event
  | ExpenseAmountKeyup int dom_event
  | AddCashEntry
  | RemoveCashEntry int
  | AddExpense
  | RemoveExpense int
  | Submit string
  | Response nat
  | Failure nat nat
  | Timeout

definition drop_nth :: "nat \<Rightarrow> 'a list \<Rightarrow> 'a list" where
  "drop_nth k xs = take k xs @ drop (Suc k) xs"

definition issue :: "outcome \<Rightarrow> log_entry list list \<Rightarrow> log_entry list list" where
  "issue out pending =
     (case out of Request batch \<Rightarrow> pending @ [batch] | NoRequest \<Rightarrow> pending | TypeError \<Rightarrow> pending)"

text \<open>One step; \<open>None\<close> when the action cannot happen in this world.\<close>

fun step :: "action \<Rightarrow> world \<Rightarrow> world option" where
  "step (NameKeyup e) w = Some (w\<lparr>app := onNameKeyup e (app w)\<rparr>)"
| "step (ShiftChange e) w = Some (w\<lparr>app := onShiftChange e (app w)\<rparr>)"
| "step (FirstDataKeyup e) w = Some (w\<lparr>app := onFirstDataKeyup e (app w)\<rparr>)"
| "step (PedidosYaKeyup e) w = Some (w\<lparr>app := onPedidosYaKeyup e (app w)\<rparr>)"
| "step (MercadoPagoKeyup e) w = Some (w\<lparr>app := onMercadoPagoKeyup e (app w)\<rparr>)"
| "step (DailySummaryKeyup e) w = Some (w\<lparr>app := onDailySummaryKeyup e (app w)\<rparr>)"
| "step (CashEntryKeyup i f e) w = Some (w\<lparr>app := onCashEntryKeyup i f e (app w)\<rparr>)"
| "step (ExpenseDetailKeyup i e) w = Some (w\<lparr>app := onExpenseDetailKeyup i e (app w)\<rparr>)"
| "step (ExpenseAmountKeyup i e) w = Some (w\<lparr>app := onExpenseAmountKeyup i e (app w)\<rparr>)"
| "step AddCashEntry w = Some (w\<lparr>app := addCashEntry (app w)\<rparr>)"
| "step (RemoveCashEntry i) w = Some (w\<lparr>app := removeCashEntry i (app w)\<rparr>)"
| "step AddExpense w = Some (w\<lparr>app := addExpense (app w)\<rparr>)"
| "step (RemoveExpense i) w = Some (w\<lparr>app := removeExpense i (app w)\<rparr>)"
| "step (Submit now) w =
     (let (s, out) = submitForm now (app w)
      in Some (w\<lparr>app := s, inflight := issue out (inflight w)\<rparr>))"
| "step (Response k) w =
     (if k < length (inflight w)
      then Some (w\<lparr>app := post_next (inflight w ! k) (app w),
                    inflight := drop_nth k (inflight w),
                    timers := timers w @ [auto_idle_delay]\<rparr>)
      else None)"
| "step (Failure k code) w =
     (if k < length (inflight w)
      then Some (w\<lparr>app := post_error code (app w), inflight := drop_nth k (inflight w)\<rparr>)
      else None)"
| "step Timeout w =
     (case timers w of
        [] \<Rightarrow> None
      | d # ds \<Rightarrow> Some (w\<lparr>app := auto_idle (app w), timers := ds\<rparr>))"

fun run :: "action list \<Rightarrow> world \<Rightarrow> world option" where
  "run [] w = Some w"
| "run (a # as) w = (case step a w of None \<Rightarrow> None | Some w' \<Rightarrow> run as w')"

text \<open>
  The guard that the source does not have: a submit action is taken only while the status
  is \<open>Idle\<close> or \<open>Error\<close>.
\<close>

fun guarded :: "action \<Rightarrow> world \<Rightarrow> bool" where
  "guarded (Submit now) w = (webhookStatus (app w) = Idle \<or> webhookStatus (app w) = Error)"
| "guarded a w = True"

fun run_guarded :: "action list \<Rightarrow> world \<Rightarrow> world option" where
  "run_guarded [] w = Some w"
| "run_guarded (a # as) w =
     (if guarded a w
      then (case step a w of None \<Rightarrow> None | Some w' \<Rightarrow> run_guarded as w')
      else None)"

text \<open>The status changes that the specification lists, with the place that makes each.\<close>

fun listed :: "site \<times> status \<times> status \<Rightarrow> bool" where
  "listed (SubmitStart, Idle, Sending) = True"
| "listed (SubmitStart, Error, Sending) = True"
| "listed (SubmitInvalid, Sending, Error) = True"
| "listed (SubmitEmpty, Sending, Error) = True"
| "listed (PostNext, Sending, Success) = True"
| "listed (PostError, Sending, Error) = True"
| "listed (AutoIdle, Success, Idle) = True"
| "listed t = False"

text \<open>
  A log is a history of the status when it starts from the value \<open>v\<close> and every entry
  starts from the value the entry before it wrote; \<open>last_status\<close> is where it ends.
\<close>

fun chained :: "status \<Rightarrow> (site \<times> status \<times> status) list \<Rightarrow> bool" where
  "chained v [] = True"
| "chained v ((pl, a, b) # ts) = (a = v \<and> chained b ts)"

fun last_status :: "status \<Rightarrow> (site \<times> status \<times> status) list \<Rightarrow> status" where
  "last_status v [] = v"
| "last_status v ((pl, a, b) # ts) = last_status b ts"

section \<open>The row handlers on a store\<close>

text \<open>
  Arrays and row objects are shared by reference in the source, so whether a handler
  changes a list in place is a question about the store. Here a reference is a number,
  an array holds references to row objects, and \<open>next_ref\<close> is the first reference not
  yet given out. The three row handlers are written again over this store, statement by
  statement; the value of the signal is the reference of its array.
\<close>

record 'r store =
  arrays :: "nat \<Rightarrow> nat slot list option"
  objects :: "nat \<Rightarrow> 'r option"
  next_ref :: nat

text \<open>\<^verbatim>\<open>[...entries]\<close>: a new array with the same references.\<close>

definition st_spread :: "nat \<Rightarrow> 'r store \<Rightarrow> nat \<times> 'r store" where
  "st_spread a st =
     (let xs = (case arrays st a of None \<Rightarrow> [] | Some xs \<Rightarrow> xs);
          b = next_ref st
      in (b, st\<lparr>arrays := (arrays st)(b \<mapsto> spread xs), next_ref := Suc b\<rparr>))"

text \<open>\<^verbatim>\<open>newEntries[index]\<close>, followed to the object it refers to.\<close>

definition st_read :: "nat \<Rightarrow> int \<Rightarrow> 'r store \<Rightarrow> 'r option" where
  "st_read a i st =
     (case arrays st a of
        None \<Rightarrow> None
      | Some xs \<Rightarrow> (case js_get xs i of None \<Rightarrow> None | Some r \<Rightarrow> objects st r))"

text \<open>An object literal: a new object.\<close>

definition st_new :: "'r \<Rightarrow> 'r store \<Rightarrow> nat \<times> 'r store" where
  "st_new obj st =
     (let r = next_ref st
      in (r, st\<lparr>objects := (objects st)(r \<mapsto> obj), next_ref := Suc r\<rparr>))"

text \<open>\<^verbatim>\<open>newEntries[index] = obj\<close>: a write into the array \<open>a\<close>, in place.\<close>

definition st_write :: "nat \<Rightarrow> int \<Rightarrow> nat \<Rightarrow> 'r store \<Rightarrow> 'r store" where
  "st_write a i r st =
     (case arrays st a of
        None \<Rightarrow> st
      | Some xs \<Rightarrow> st\<lparr>arrays := (arrays st)(a \<mapsto> js_set xs i r)\<rparr>)"

definition onCashEntryKeyup_store ::
    "int \<Rightarrow> cash_field \<Rightarrow> dom_event \<Rightarrow> nat \<times> cash_entry store \<Rightarrow> nat \<times> cash_entry store" where
  "onCashEntryKeyup_store index field event sig =
     (let v = getNumberValue event;
          (entries, st) = sig;
          (newEntries, st) = st_spread entries st;
          (obj, st) = st_new (with_cash_field field (of_nullable v)
                                (obj_spread no_cash_props (st_read newEntries index st))) st;
          st = st_write newEntries index obj st
      in (newEntries, st))"

definition onExpenseDetailKeyup_store ::
    "int \<Rightarrow> dom_event \<Rightarrow> nat \<times> expense_entry store \<Rightarrow> nat \<times> expense_entry store" where
  "onExpenseDetailKeyup_store index event sig =
     (let v = getStringValue event;
          (entries, st) = sig;
          (newEntries, st) = st_spread entries st;
          (obj, st) = st_new ((obj_spread no_expense_props (st_read newEntries index st))
                                \<lparr>detail := Val v\<rparr>) st;
          st = st_write newEntries index obj st
      in (newEntries, st))"

definition onExpenseAmountKeyup_store ::
    "int \<Rightarrow> dom_event \<Rightarrow> nat \<times> expense_entry store \<Rightarrow> nat \<times> expense_entry store" where
  "onExpenseAmountKeyup_store index event sig =
     (let v = getNumberValue event;
          (entries, st) = sig;
          (newEntries, st) = st_spread entries st;
          (obj, st) = st_new ((obj_spread no_expense_props (st_read newEntries index st))
                                \<lparr>amount := of_nullable v\<rparr>) st;
          st = st_write newEntries index obj st
      in (newEntries, st))"

text \<open>The list that a reference to an array shows: each reference replaced by its object.\<close>

fun deref :: "'r store \<Rightarrow> nat slot \<Rightarrow> 'r slot" where
  "deref st Hole = Hole"
| "deref st Undef = Undef"
| "deref st (Row r) = Row (the (objects st r))"

definition view :: "'r store \<Rightarrow> nat \<Rightarrow> 'r slot list" where
  "view st a = map (deref st) (the (arrays st a))"

text \<open>
  A signal \<open>(a, st)\<close> is well formed when \<open>a\<close> is an array of the store, the references in
  it are objects of the store, and no reference from \<open>next_ref\<close> on is in use.
\<close>

definition wf_signal :: "nat \<times> 'r store \<Rightarrow> bool" where
  "wf_signal sig =
     (case sig of (a, st) \<Rightarrow>
        (case arrays st a of
           None \<Rightarrow> False
         | Some xs \<Rightarrow> (\<forall>r. Row r \<in> set xs \<longrightarrow> objects st r \<noteq> None))
        \<and> (\<forall>b. next_ref st \<le> b \<longrightarrow> arrays st b = None \<and> objects st b = None))"

section \<open>The specification's sums\<close>

text \<open>
  The sums as the specification words them, taken in the arithmetic of the source: from 0,
  row after row, \<open>(denomination ?? 0) * (quantity ?? 0)\<close> and \<open>(amount ?? 0)\<close>.
\<close>

definition spec_cashSubtotal :: "cash_entry list \<Rightarrow> number" where
  "spec_cashSubtotal rows =
     foldl (\<lambda>acc r. acc + nullish0 (denomination r) * nullish0 (quantity r)) 0 rows"

definition spec_expensesSubtotal :: "expense_entry list \<Rightarrow> number" where
  "spec_expensesSubtotal rows = foldl (\<lambda>acc r. acc + nullish0 (amount r)) 0 rows"

text \<open>
  The same sum over the cash rows in exact arithmetic: the rational a field stands for, an
  absent field counting as 0.
\<close>

fun exact0 :: "number jsval \<Rightarrow> rat" where
  "exact0 (Val (Finite a)) = a"
| "exact0 v = 0"

definition exact_cashSubtotal :: "cash_entry list \<Rightarrow> rat" where
  "exact_cashSubtotal rows = (\<Sum>r\<leftarrow>rows. exact0 (denomination r) * exact0 (quantity r))"

text \<open>
  A field is whole when it is absent or a whole number. A list of rows is safe when all its
  fields are whole and every product and every sum along the way, in exact arithmetic, is at
  most \<open>2^53 = 9007199254740992\<close> in size; \<open>safe_from\<close> starts from the sum so far.
\<close>

fun whole_field :: "number jsval \<Rightarrow> bool" where
  "whole_field (Val (Finite a)) = (of_int \<lfloor>a\<rfloor> = a)"
| "whole_field (Val v) = False"
| "whole_field Null = True"
| "whole_field Undefined = True"

fun safe_from :: "rat \<Rightarrow> cash_entry list \<Rightarrow> bool" where
  "safe_from acc [] = True"
| "safe_from acc (r # rs) =
     (whole_field (denomination r) \<and> whole_field (quantity r)
      \<and> \<bar>exact0 (denomination r) * exact0 (quantity r)\<bar> \<le> 9007199254740992
      \<and> \<bar>acc + exact0 (denomination r) * exact0 (quantity r)\<bar> \<le> 9007199254740992
      \<and> safe_from (acc + exact0 (denomination r) * exact0 (quantity r)) rs)"

section \<open>The specification's batch\<close>

text \<open>
  An expense row qualifies when its amount is present and greater than 0 and its detail is
  not empty; its ledger entry has the negated amount and a label that embeds the detail.
\<close>

definition qualifies :: "expense_entry \<Rightarrow> bool" where
  "qualifies e =
     ((case amount e of Val a \<Rightarrow> 0 < a | Null \<Rightarrow> False | Undefined \<Rightarrow> False)
      \<and> (case detail e of Val d \<Rightarrow> d \<noteq> [] | Null \<Rightarrow> False | Undefined \<Rightarrow> False))"

definition expense_log :: "string \<Rightarrow> string \<Rightarrow> string \<Rightarrow> expense_entry \<Rightarrow> log_entry" where
  "expense_log now name sh e =
     \<lparr>day = now, log_closerName = name, log_shift = sh,
      accountingImputation = ''Gastos Operativos'',
      accountEntry = ''Gasto: '' @ text_of (detail e),
      log_amount = - nullish0 (amount e)\<rparr>"

text \<open>One entry for an income that is greater than 0, none otherwise.\<close>

definition income_log ::
    "string \<Rightarrow> string \<Rightarrow> string \<Rightarrow> string \<Rightarrow> string \<Rightarrow> number \<Rightarrow> log_entry list" where
  "income_log now name sh imputation label a =
     (if 0 < a
      then [\<lparr>day = now, log_closerName = name, log_shift = sh,
              accountingImputation = imputation, accountEntry = label, log_amount = a\<rparr>]
      else [])"

text \<open>
  The batch as the specification describes it, for a state whose cash rows are \<open>cs\<close> and
  whose expense rows are \<open>es\<close>: the three digital incomes, the cash subtotal, the
  qualifying expenses, and, when the daily summary is present, the summary and the
  difference.
\<close>

definition spec_batch ::
    "string \<Rightarrow> app_state \<Rightarrow> cash_entry list \<Rightarrow> expense_entry list \<Rightarrow> log_entry list" where
  "spec_batch now s cs es =
     income_log now (closerName s) (shift s) ''Ventas con Tarjeta'' ''Ingreso: First Data''
       (or0 (firstDataIncome s))
     @ income_log now (closerName s) (shift s) ''Ventas Delivery'' ''Ingreso: PedidosYa''
       (or0 (pedidosYaIncome s))
     @ income_log now (closerName s) (shift s) ''Ventas Digitales'' ''Ingreso: Mercado Pago''
       (or0 (mercadoPagoIncome s))
     @ income_log now (closerName s) (shift s) ''Ventas en Efectivo'' ''Ingreso: Efectivo''
       (spec_cashSubtotal cs)
     @ map (expense_log now (closerName s) (shift s)) (filter qualifies es)
     @ (case dailySummary s of
          None \<Rightarrow> []
        | Some d \<Rightarrow>
            [\<lparr>day = now, log_closerName = closerName s, log_shift = shift s,
              accountingImputation = ''Cierre'', accountEntry = ''Resumen Diario (Manual)'',
              log_amount = d\<rparr>,
             \<lparr>day = now, log_closerName = closerName s, log_shift = shift s,
              accountingImputation = ''Cierre'', accountEntry = ''Diferencia de Caja'',
              log_amount =
                or0 (firstDataIncome s) + or0 (pedidosYaIncome s) + or0 (mercadoPagoIncome s)
                + spec_cashSubtotal cs + spec_expensesSubtotal es - d\<rparr>])"

definition is_expense_log :: "log_entry \<Rightarrow> bool" where
  "is_expense_log l = (accountingImputation l = ''Gastos Operativos'')"

text \<open>The Form State: the eight input signals.\<close>

definition form_of ::
    "app_state \<Rightarrow> string \<times> string \<times> number option \<times> number option \<times> number option
       \<times> number option
       \<times> cash_entry slot list \<times> expense_entry slot list" where
  "form_of s =
     (closerName s, shift s, firstDataIncome s, pedidosYaIncome s, mercadoPagoIncome s,
      dailySummary s, cashEntries s, expenses s)"

text \<open>Which action runs the code of which writing place.\<close>

fun made_by :: "action \<Rightarrow> site \<Rightarrow> bool" where
  "made_by (Submit now) pl = (pl = SubmitStart \<or> pl = SubmitInvalid \<or> pl = SubmitEmpty)"
| "made_by (Response k) pl = (pl = PostNext)"
| "made_by (Failure k code) pl = (pl = PostError)"
| "made_by Timeout pl = (pl = AutoIdle)"
| "made_by a pl = False"

text \<open>
  Two properties of a world. It is \<open>settled\<close> when at most one request or timer is
  pending, the status is \<open>Sending\<close> while a request is pending and \<open>Success\<close> while a
  timer is pending, and a pending timer has the delay of 5000 ms. Its log is \<open>faithful\<close>
  when the log is a history of the status from \<open>Idle\<close> to the current status.
\<close>

definition settled :: "world \<Rightarrow> bool" where
  "settled w =
     (length (inflight w) + length (timers w) \<le> 1
      \<and> (inflight w \<noteq> [] \<longrightarrow> webhookStatus (app w) = Sending)
      \<and> (timers w \<noteq> [] \<longrightarrow> webhookStatus (app w) = Success \<and> timers w = [5000]))"

definition faithful :: "app_state \<Rightarrow> bool" where
  "faithful s =
     (chained Idle (statusLog s) \<and> last_status Idle (statusLog s) = webhookStatus s)"

section \<open>The shape shared by the row handlers\<close>

text \<open>
  The three row handlers differ only in the field they set. \<open>row_update\<close> is their
  common body on a list, \<open>row_update_store\<close> the same body on a store; \<open>upd\<close> sets the
  field and \<open>none\<close> is the object without properties.
\<close>

definition row_update :: "('r \<Rightarrow> 'r) \<Rightarrow> 'r \<Rightarrow> int \<Rightarrow> 'r slot list \<Rightarrow> 'r slot list" where
  "row_update upd none index entries =
     (let newEntries = spread entries
      in js_set newEntries index (upd (obj_spread none (js_get newEntries index))))"

definition row_update_store ::
    "('r \<Rightarrow> 'r) \<Rightarrow> 'r \<Rightarrow> int \<Rightarrow> nat \<times> 'r store \<Rightarrow> nat \<times> 'r store" where
  "row_update_store upd none index sig =
     (let (entries, st) = sig;
          (newEntries, st) = st_spread entries st;
          (obj, st) = st_new (upd (obj_spread none (st_read newEntries index st))) st;
          st = st_write newEntries index obj st
      in (newEntries, st))"

text \<open>
  Every reference given out before the store \<open>st\<close> became \<open>st'\<close> shows in \<open>st'\<close> the array
  or the object it showed in \<open>st\<close>.
\<close>

definition old_refs_unchanged :: "'r store \<Rightarrow> 'r store \<Rightarrow> bool" where
  "old_refs_unchanged st st' =
     (\<forall>b < next_ref st. arrays st' b = arrays st b \<and> objects st' b = objects st b)"

section \<open>Properties of the numbers\<close>

text \<open>
  A whole number of size at most \<open>2^53\<close> is a double, so rounding leaves it as it is, and
  sums, differences and products of whole numbers are exact as long as they stay in that
  range.
\<close>

lemma ilog2_le: "0 < n \<Longrightarrow> 2 ^ ilog2 n \<le> n"
proof (induction n rule: ilog2.induct)
  case (1 n)
  show ?case
  proof (cases "n < 2")
    case True
    with 1 show ?thesis by (simp add: ilog2.simps [of n])
  next
    case False
    then have "0 < n div 2" by simp
    with 1 False have "2 ^ ilog2 (n div 2) \<le> n div 2" by simp
    then have "2 * 2 ^ ilog2 (n div 2) \<le> 2 * (n div 2)" by simp
    also have "\<dots> \<le> n" by simp
    finally show ?thesis using False by (simp add: ilog2.simps [of n])
  qed
qed

lemma pow2_pos: "0 < pow2 k"
  by (simp add: pow2_def)

lemma round_half_even_int: "round_half_even (of_int k) = k"
  by (simp add: round_half_even_def)

lemma round_double_exact:
  assumes "x \<in> \<int>" "\<bar>x\<bar> \<le> 9007199254740992"
  shows "round_double x = Finite x"
proof (cases "x = 0")
  case True
  then show ?thesis by (simp add: round_double_def)
next
  case False
  from assms(1) obtain k :: int where k: "x = of_int k" by (auto elim: Ints_cases)
  define n where "n = nat \<bar>k\<bar>"
  from False k have n0: "0 < n" by (simp add: n_def)
  have a: "\<bar>x\<bar> = of_nat n" by (simp add: k n_def)
  have n53: "n \<le> 2 ^ 53"
  proof -
    from assms(2) k have "\<bar>k\<bar> \<le> 9007199254740992"
      by (metis of_int_abs of_int_le_iff of_int_numeral)
    then show ?thesis by (simp add: n_def)
  qed
  have one: "(1::rat) \<le> \<bar>x\<bar>" using n0 by (simp add: a)
  have e: "exponent \<bar>x\<bar> = int (ilog2 n)"
    using one by (simp add: exponent_def a)
  have le: "2 ^ ilog2 n \<le> n" by (rule ilog2_le [OF n0])
  with n53 have p53: "(2::nat) ^ ilog2 n \<le> 2 ^ 53" by linarith
  have i53: "ilog2 n \<le> 53"
    by (rule power_le_imp_le_exp [OF _ p53]) simp
  define u where "u = max (int (ilog2 n) - 52) (- 1074)"
  have u: "u = int (ilog2 n) - 52" by (simp add: u_def)
  have "\<exists>m::int. \<bar>x\<bar> / pow2 u = of_int m"
  proof (cases "ilog2 n = 53")
    case True
    have pu: "pow2 u = 2" by (simp add: u True pow2_def)
    from le n53 True have "n = 2 ^ 53" by simp
    then have "\<bar>x\<bar> = 2 ^ 53" by (simp add: a)
    then have "\<bar>x\<bar> / pow2 u = of_int (2 ^ 52)"
      by (simp add: pu)
    then show ?thesis ..
  next
    case False
    with i53 have l: "ilog2 n \<le> 52" by simp
    then have "pow2 u = 1 / 2 ^ (52 - ilog2 n)"
      by (simp add: u pow2_def nat_diff_distrib')
    then have "\<bar>x\<bar> / pow2 u = of_int (int n * 2 ^ (52 - ilog2 n))"
      by (simp add: a)
    then show ?thesis ..
  qed
  then obtain m :: int where m: "\<bar>x\<bar> / pow2 u = of_int m" ..
  have r: "of_int (round_half_even (\<bar>x\<bar> / pow2 u)) * pow2 u = \<bar>x\<bar>"
  proof -
    have "round_half_even (\<bar>x\<bar> / pow2 u) = m"
      by (simp add: m round_half_even_int)
    then have "of_int (round_half_even (\<bar>x\<bar> / pow2 u)) * pow2 u = (\<bar>x\<bar> / pow2 u) * pow2 u"
      by (simp add: m)
    also have "\<dots> = \<bar>x\<bar>"
      using pow2_pos [of u] by simp
    finally show ?thesis .
  qed
  have small: "\<not> (2::rat) ^ 1024 \<le> \<bar>x\<bar>"
  proof -
    have "\<bar>x\<bar> \<le> 2 ^ 53" using assms(2) by simp
    also have "\<dots> < (2::rat) ^ 1024" by (rule power_strict_increasing) simp_all
    finally show ?thesis by simp
  qed
  have "round_double x =
      (if 2 ^ 1024 \<le> \<bar>x\<bar> then (if 0 < x then PosInf else NegInf)
       else Finite (if 0 < x then \<bar>x\<bar> else - \<bar>x\<bar>))"
    unfolding round_double_def Let_def e u_def [symmetric] r
    using False by (simp only: if_False)
  also have "\<dots> = Finite (if 0 < x then \<bar>x\<bar> else - \<bar>x\<bar>)"
    using small by (simp only: if_False)
  also have "\<dots> = Finite x"
    by simp
  finally show ?thesis .
qed

lemma add_exact:
  "x \<in> \<int> \<Longrightarrow> y \<in> \<int> \<Longrightarrow> \<bar>x + y\<bar> \<le> 9007199254740992 \<Longrightarrow> Finite x + Finite y = Finite (x + y)"
  by (simp add: plus_number_def round_double_exact)

lemma sub_exact:
  "x \<in> \<int> \<Longrightarrow> y \<in> \<int> \<Longrightarrow> \<bar>x - y\<bar> \<le> 9007199254740992 \<Longrightarrow> Finite x - Finite y = Finite (x - y)"
  by (simp add: minus_number_def round_double_exact)

lemma mul_exact:
  "x \<in> \<int> \<Longrightarrow> y \<in> \<int> \<Longrightarrow> \<bar>x * y\<bar> \<le> 9007199254740992 \<Longrightarrow> Finite x * Finite y = Finite (x * y)"
  by (simp add: times_number_def round_double_exact)

lemma neg_Finite: "- Finite x = Finite (- x)"
  by (simp add: uminus_number_def)

lemma less_Finite: "(Finite x < Finite y) = (x < y)" "(0 < Finite y) = (0 < y)" "(Finite x < 0) = (x < 0)"
  by (simp_all add: less_number_def zero_number_def)

lemma add_zero_number: "0 + Finite x = round_double x" "Finite x + 0 = round_double x"
  by (simp_all add: plus_number_def zero_number_def)

lemma less_imp_truthy: "0 < x \<Longrightarrow> truthy_num x" for x :: number
  by (cases x) (simp_all add: truthy_num_def less_number_def zero_number_def)

lemma zero_less_zero_number [simp]: "\<not> (0::number) < 0"
  by (simp add: less_number_def zero_number_def)

lemma floor_rat_numeral: "\<lfloor>(numeral a :: rat) / numeral b\<rfloor> = numeral a div numeral b"
  by (metis floor_divide_of_int_eq of_int_numeral)

text \<open>The rules that evaluate arithmetic on whole numbers in the exact range.\<close>

lemmas number_eval = add_exact sub_exact mul_exact neg_Finite less_Finite zero_number_def

text \<open>
  The result of rounding is a double: rounding it again changes nothing. So adding or
  subtracting 0 leaves the result of an operation as it is.
\<close>

lemma ilog2_less: "n < 2 ^ Suc (ilog2 n)"
proof (induction n rule: ilog2.induct)
  case (1 n)
  show ?case
  proof (cases "n < 2")
    case True
    then show ?thesis by (simp add: ilog2.simps [of n])
  next
    case False
    with 1 have "n div 2 < 2 ^ Suc (ilog2 (n div 2))" by simp
    then have "n < 2 * 2 ^ Suc (ilog2 (n div 2))" by linarith
    then show ?thesis using False by (simp add: ilog2.simps [of n])
  qed
qed

lemma pow2_powi: "pow2 k = 2 powi k"
  by (simp add: pow2_def power_int_def inverse_eq_divide power_one_over)

lemma pow2_add: "pow2 (j + k) = pow2 j * pow2 k"
  by (simp add: pow2_powi power_int_add)

lemma pow2_mono: "j \<le> k \<Longrightarrow> pow2 j \<le> pow2 k"
  by (simp add: pow2_powi power_int_increasing)

lemma pow2_strict_mono: "j < k \<Longrightarrow> pow2 j < pow2 k"
  by (simp add: pow2_powi power_int_strict_increasing)

lemma pow2_nat: "pow2 (int n) = 2 ^ n"
  by (simp add: pow2_def)

lemma pow2_neg: "pow2 (- int n) = 1 / 2 ^ n"
  by (simp add: pow2_powi power_int_minus inverse_eq_divide)

lemma pow2_less_cancel: "pow2 j < pow2 k \<Longrightarrow> j < k"
  using pow2_mono [of k j] by (cases "j < k") auto

lemma exponent_bounds:
  assumes "0 < a"
  shows "pow2 (exponent a) \<le> a" and "a < pow2 (exponent a + 1)"
proof -
  show "pow2 (exponent a) \<le> a"
  proof (cases "1 \<le> a")
    case True
    define n where "n = nat \<lfloor>a\<rfloor>"
    from True have n0: "0 < n" by (simp add: n_def)
    have "(2::rat) ^ ilog2 n \<le> of_nat n"
      using ilog2_le [OF n0] by (metis of_nat_le_iff of_nat_numeral of_nat_power)
    also have "\<dots> \<le> a" using True by (simp add: n_def)
    finally show ?thesis using True by (simp add: exponent_def pow2_nat flip: n_def)
  next
    case False
    define m where "m = nat \<lceil>1 / a\<rceil>"
    from False assms have y: "1 < 1 / a" by simp
    then have m2: "2 \<le> m" by (simp add: m_def le_nat_iff)
    have e: "exponent a = - int (Suc (ilog2 (m - 1)))"
      using False m2 by (simp add: exponent_def clog2_def flip: m_def)
    have "m - 1 < 2 ^ Suc (ilog2 (m - 1))" by (rule ilog2_less)
    then have "m \<le> 2 ^ Suc (ilog2 (m - 1))" by linarith
    then have "(of_nat m :: rat) \<le> 2 ^ Suc (ilog2 (m - 1))"
      by (metis of_nat_le_iff of_nat_numeral of_nat_power)
    moreover have "1 / a \<le> of_nat m"
      using y by (simp add: m_def)
    ultimately have "1 / a \<le> 2 ^ Suc (ilog2 (m - 1))" by linarith
    then have "1 / 2 ^ Suc (ilog2 (m - 1)) \<le> a"
      using assms by (simp add: field_simps)
    then show ?thesis by (simp only: e pow2_neg)
  qed
  show "a < pow2 (exponent a + 1)"
  proof (cases "1 \<le> a")
    case True
    define n where "n = nat \<lfloor>a\<rfloor>"
    have "n < 2 ^ Suc (ilog2 n)" by (rule ilog2_less)
    then have "n + 1 \<le> 2 ^ Suc (ilog2 n)" by linarith
    then have "(of_nat (n + 1) :: rat) \<le> 2 ^ Suc (ilog2 n)"
      by (metis of_nat_le_iff of_nat_numeral of_nat_power)
    moreover have "a < of_nat (n + 1)"
      using True by (simp add: n_def) linarith
    ultimately have "a < 2 ^ Suc (ilog2 n)" by linarith
    moreover have "exponent a + 1 = int (Suc (ilog2 n))"
      using True by (simp add: exponent_def n_def)
    ultimately show ?thesis by (simp only: pow2_nat)
  next
    case False
    define m where "m = nat \<lceil>1 / a\<rceil>"
    from False assms have y: "1 < 1 / a" by simp
    then have m2: "2 \<le> m" by (simp add: m_def le_nat_iff)
    have e: "exponent a + 1 = - int (ilog2 (m - 1))"
      using False m2 by (simp add: exponent_def clog2_def flip: m_def)
    have m1: "0 < m - 1" using m2 by simp
    have "(2::rat) ^ ilog2 (m - 1) \<le> of_nat (m - 1)"
      using ilog2_le [OF m1] by (metis of_nat_le_iff of_nat_numeral of_nat_power)
    moreover have "of_nat (m - 1) < 1 / a"
    proof -
      have "of_int (\<lceil>1 / a\<rceil> - 1) < 1 / a" by linarith
      moreover have "int (m - 1) = \<lceil>1 / a\<rceil> - 1" using m2 y by (simp add: m_def)
      ultimately show ?thesis by (metis of_int_of_nat_eq)
    qed
    ultimately have "2 ^ ilog2 (m - 1) < 1 / a" by linarith
    then have "a < 1 / 2 ^ ilog2 (m - 1)"
      using assms by (simp add: field_simps)
    then show ?thesis
      by (simp only: e pow2_neg)
  qed
qed

lemma exponent_unique:
  assumes "0 < a" "pow2 e \<le> a" "a < pow2 (e + 1)"
  shows "exponent a = e"
proof -
  note b = exponent_bounds [OF assms(1)]
  have "pow2 e < pow2 (exponent a + 1)" using assms(2) b(2) by linarith
  then have "e < exponent a + 1" by (rule pow2_less_cancel)
  moreover have "pow2 (exponent a) < pow2 (e + 1)" using assms(3) b(1) by linarith
  then have "exponent a < e + 1" by (rule pow2_less_cancel)
  ultimately show ?thesis by linarith
qed

lemma exponent_scaled:
  assumes "0 < n"
  shows "exponent (of_nat n * pow2 u) = int (ilog2 n) + u"
proof (rule exponent_unique)
  show "0 < of_nat n * pow2 u" using assms pow2_pos [of u] by simp
  have "(2::rat) ^ ilog2 n \<le> of_nat n"
    using ilog2_le [OF assms] by (metis of_nat_le_iff of_nat_numeral of_nat_power)
  then show "pow2 (int (ilog2 n) + u) \<le> of_nat n * pow2 u"
    using pow2_pos [of u] by (simp add: pow2_add pow2_nat)
  have "(of_nat n :: rat) < 2 ^ Suc (ilog2 n)"
    using ilog2_less [of n] by (metis of_nat_less_iff of_nat_numeral of_nat_power)
  then have "of_nat n * pow2 u < 2 ^ Suc (ilog2 n) * pow2 u"
    using pow2_pos [of u] by simp
  also have "\<dots> = pow2 (int (ilog2 n) + u + 1)"
    by (simp add: pow2_add pow2_nat [symmetric] del: of_nat_Suc) (simp add: pow2_nat pow2_def)
  finally show "of_nat n * pow2 u < pow2 (int (ilog2 n) + u + 1)" .
qed

lemma round_double_representable:
  assumes "0 < y" and "y / pow2 (max (exponent y - 52) (- 1074)) = of_int m"
    and "\<not> 2 ^ 1024 \<le> y"
  shows "round_double y = Finite y"
proof -
  define u where "u = max (exponent y - 52) (- 1074)"
  have "of_int (round_half_even (y / pow2 u)) * pow2 u = (y / pow2 u) * pow2 u"
    using assms(2) by (simp add: u_def round_half_even_int)
  also have "\<dots> = y"
    using pow2_pos [of u] by simp
  finally have r: "of_int (round_half_even (y / pow2 u)) * pow2 u = y" .
  have ay: "\<bar>y\<bar> = y" using assms(1) by simp
  have "round_double y =
      (if 2 ^ 1024 \<le> y then (if 0 < y then PosInf else NegInf)
       else Finite (if 0 < y then y else - y))"
    unfolding round_double_def Let_def ay
    unfolding u_def [symmetric]
    unfolding r
    using assms(1) by simp
  then show ?thesis
    using assms(1,3) by simp
qed

lemma round_half_even_range:
  assumes "0 \<le> q" "q < of_int N"
  shows "0 \<le> round_half_even q" and "round_half_even q \<le> N"
proof -
  have f: "0 \<le> \<lfloor>q\<rfloor>" "\<lfloor>q\<rfloor> < N"
    using assms by (simp_all add: floor_less_iff)
  then show "0 \<le> round_half_even q" and "round_half_even q \<le> N"
    by (auto simp: round_half_even_def Let_def)
qed

lemma round_double_scaled:
  assumes "0 < n" "n \<le> 2 ^ 53" "- 1074 \<le> u" "\<not> 2 ^ 1024 \<le> of_nat n * pow2 u"
  shows "round_double (of_nat n * pow2 u) = Finite (of_nat n * pow2 u)"
proof -
  let ?y = "of_nat n * pow2 u :: rat"
  have y: "0 < ?y" using assms(1) pow2_pos [of u] by simp
  have e: "exponent ?y = int (ilog2 n) + u" by (rule exponent_scaled [OF assms(1)])
  define u' where "u' = max (int (ilog2 n) + u - 52) (- 1074)"
  have le: "2 ^ ilog2 n \<le> n" by (rule ilog2_le [OF assms(1)])
  with assms(2) have p53: "(2::nat) ^ ilog2 n \<le> 2 ^ 53" by linarith
  have i53: "ilog2 n \<le> 53"
    by (rule power_le_imp_le_exp [OF _ p53]) simp
  have "\<exists>m::int. ?y / pow2 u' = of_int m"
  proof (cases "ilog2 n = 53")
    case True
    with le assms(2) have n: "n = 2 ^ 53" by simp
    have u': "u' = u + 1" using assms(3) by (simp add: u'_def True)
    have "?y / pow2 u' = of_nat n * pow2 u / (pow2 u * pow2 1)"
      by (simp add: u' pow2_add)
    also have "\<dots> = of_nat n / pow2 1"
      using pow2_pos [of u] by simp
    also have "\<dots> = of_int (2 ^ 52)"
      by (simp add: n pow2_def)
    finally show ?thesis ..
  next
    case False
    with i53 have "ilog2 n \<le> 52" by simp
    with assms(3) have k: "0 \<le> u - u'" by (simp add: u'_def)
    have "pow2 u = pow2 (u - u') * pow2 u'"
      by (simp add: pow2_add [symmetric])
    then have "?y / pow2 u' = of_nat n * pow2 (u - u')"
      using pow2_pos [of u'] by simp
    also have "\<dots> = of_int (int n * 2 ^ nat (u - u'))"
      using k by (simp add: pow2_def)
    finally show ?thesis ..
  qed
  then obtain m :: int where "?y / pow2 u' = of_int m" ..
  then have "?y / pow2 (max (exponent ?y - 52) (- 1074)) = of_int m"
    by (simp add: e u'_def)
  from round_double_representable [OF y this assms(4)] show ?thesis .
qed

lemma round_double_minus: "round_double (- x) = js_neg (round_double x)"
  by (simp add: round_double_def Let_def)

lemma round_double_idem:
  assumes "round_double x = Finite r"
  shows "round_double r = Finite r"
proof (cases "x = 0")
  case True
  with assms show ?thesis by (simp add: round_double_def)
next
  case False
  define a where "a = \<bar>x\<bar>"
  define u where "u = max (exponent a - 52) (- 1074)"
  define k where "k = round_half_even (a / pow2 u)"
  have a0: "0 < a" using False by (simp add: a_def)
  have rd: "round_double x =
      (if 2 ^ 1024 \<le> of_int k * pow2 u then (if 0 < x then PosInf else NegInf)
       else Finite (if 0 < x then of_int k * pow2 u else - (of_int k * pow2 u)))"
    using False by (simp add: round_double_def Let_def a_def u_def k_def)
  with assms have small: "\<not> 2 ^ 1024 \<le> of_int k * pow2 u"
    and r: "r = (if 0 < x then of_int k * pow2 u else - (of_int k * pow2 u))"
    by (auto split: if_splits)
  have q0: "0 \<le> a / pow2 u" using a0 pow2_pos [of u] by simp
  have "a < pow2 (exponent a + 1)" by (rule exponent_bounds(2) [OF a0])
  also have "\<dots> = pow2 (exponent a + 1 - u) * pow2 u"
    by (simp add: pow2_add [symmetric])
  also have "\<dots> \<le> pow2 53 * pow2 u"
  proof -
    have "exponent a + 1 - u \<le> 53" by (simp add: u_def)
    then have "pow2 (exponent a + 1 - u) \<le> pow2 53" by (rule pow2_mono)
    then show ?thesis using pow2_pos [of u] by simp
  qed
  finally have "a / pow2 u < pow2 53"
    using pow2_pos [of u] by (simp add: field_simps)
  then have q53: "a / pow2 u < of_int (2 ^ 53)"
    by (simp add: pow2_def)
  from round_half_even_range [OF q0 q53] have k: "0 \<le> k" "k \<le> 2 ^ 53"
    by (simp_all add: k_def)
  have pos: "round_double (of_int k * pow2 u) = Finite (of_int k * pow2 u)"
  proof (cases "k = 0")
    case True
    then show ?thesis by (simp add: round_double_def)
  next
    case False
    define n where "n = nat k"
    from False k have n: "0 < n" "n \<le> 2 ^ 53" "of_int k = (of_nat n :: rat)"
      by (simp_all add: n_def nat_le_iff)
    have u1074: "- 1074 \<le> u" by (simp add: u_def)
    from round_double_scaled [OF n(1,2) u1074] small show ?thesis
      by (simp add: n(3))
  qed
  show ?thesis
  proof (cases "0 < x")
    case True
    with r pos show ?thesis by simp
  next
    case False
    with r have "r = - (of_int k * pow2 u)" by simp
    then show ?thesis
      by (simp only: round_double_minus pos js_neg.simps)
  qed
qed

lemma js_add_zero_right: "x + y - 0 = x + y" for x y :: number
proof (cases "x + y")
  case (Finite r)
  then obtain a b where "x = Finite a" "y = Finite b" "round_double (a + b) = Finite r"
    by (cases x; cases y) (simp_all add: plus_number_def)
  then have "round_double r = Finite r" by (simp add: round_double_idem)
  with Finite show ?thesis
    by (simp add: minus_number_def zero_number_def)
qed (simp_all add: minus_number_def zero_number_def)

section \<open>Properties of the computed signals\<close>

lemma reduce_Row: "reduce f acc (map Row rs) = Some (foldl f acc rs)"
  by (induction rs arbitrary: acc) simp_all

lemma cashSubtotal_rows:
  "cashEntries s = map Row rows \<Longrightarrow> cashSubtotal s = Some (spec_cashSubtotal rows)"
  by (simp add: cashSubtotal_def spec_cashSubtotal_def reduce_Row)

lemma expensesSubtotal_rows:
  "expenses s = map Row rows \<Longrightarrow> expensesSubtotal s = Some (spec_expensesSubtotal rows)"
  by (simp add: expensesSubtotal_def spec_expensesSubtotal_def reduce_Row)

lemma whole_field_exact:
  assumes "whole_field v"
  shows "nullish0 v = Finite (exact0 v)" and "exact0 v \<in> \<int>"
proof -
  show "nullish0 v = Finite (exact0 v)"
    using assms by (cases v rule: whole_field.cases) (simp_all add: zero_number_def)
  show "exact0 v \<in> \<int>"
  proof (cases v rule: whole_field.cases)
    case (1 a)
    with assms have "of_int \<lfloor>a\<rfloor> = a" by simp
    then have "a \<in> \<int>" by (metis Ints_of_int)
    with 1 show ?thesis by simp
  qed simp_all
qed

lemma foldl_safe:
  assumes "safe_from acc rows" "acc \<in> \<int>"
  shows "foldl (\<lambda>acc r. acc + nullish0 (denomination r) * nullish0 (quantity r)) (Finite acc) rows
       = Finite (acc + exact_cashSubtotal rows)"
  using assms
proof (induction rows arbitrary: acc)
  case Nil
  then show ?case by (simp add: exact_cashSubtotal_def)
next
  case (Cons r rows)
  let ?d = "exact0 (denomination r)" and ?q = "exact0 (quantity r)"
  from Cons.prems(1) have w: "whole_field (denomination r)" "whole_field (quantity r)"
    and p: "\<bar>?d * ?q\<bar> \<le> 9007199254740992"
    and a: "\<bar>acc + ?d * ?q\<bar> \<le> 9007199254740992"
    and rest: "safe_from (acc + ?d * ?q) rows"
    by simp_all
  note d = whole_field_exact [OF w(1)] and q = whole_field_exact [OF w(2)]
  have prod: "nullish0 (denomination r) * nullish0 (quantity r) = Finite (?d * ?q)"
    by (simp add: d(1) q(1) mul_exact [OF d(2) q(2) p])
  have pz: "?d * ?q \<in> \<int>" using d(2) q(2) by simp
  have sum: "Finite acc + Finite (?d * ?q) = Finite (acc + ?d * ?q)"
    by (rule add_exact [OF Cons.prems(2) pz a])
  have az: "acc + ?d * ?q \<in> \<int>" using Cons.prems(2) pz by simp
  show ?case
    using Cons.IH [OF rest az]
    by (simp add: prod sum exact_cashSubtotal_def add.assoc)
qed

text \<open>
  C7, in the arithmetic of the source. For every list of cash rows \<open>cashSubtotal\<close> returns
  the sum, taken in double arithmetic from 0 and row after row, of the products of
  denomination and quantity, an absent denomination or quantity counting as 0. When the
  list is safe (all fields whole, every product and every sum along the way at most
  \<open>2^53\<close> in size) that is the exact sum; the rows \<open>[{20000, 2}, {10000, null}]\<close> give
  40000.
\<close>

theorem cashSubtotal_sum:
  "cashSubtotal (s\<lparr>cashEntries := map Row rows\<rparr>) =
     Some (foldl (\<lambda>acc r. acc + nullish0 (denomination r) * nullish0 (quantity r)) 0 rows)
   \<and> (safe_from 0 rows \<longrightarrow>
        cashSubtotal (s\<lparr>cashEntries := map Row rows\<rparr>) = Some (Finite (exact_cashSubtotal rows)))
   \<and> cashSubtotal (s\<lparr>cashEntries :=
        [Row \<lparr>denomination = Val (Finite 20000), quantity = Val (Finite 2)\<rparr>,
         Row \<lparr>denomination = Val (Finite 10000), quantity = Null\<rparr>]\<rparr>) = Some (Finite 40000)"
proof (intro conjI impI)
  show f: "cashSubtotal (s\<lparr>cashEntries := map Row rows\<rparr>) =
     Some (foldl (\<lambda>acc r. acc + nullish0 (denomination r) * nullish0 (quantity r)) 0 rows)"
    for rows
    by (simp add: cashSubtotal_def reduce_Row)
  show "cashSubtotal (s\<lparr>cashEntries := map Row rows\<rparr>) = Some (Finite (exact_cashSubtotal rows))"
    if "safe_from 0 rows"
    using foldl_safe [OF that] by (simp add: f zero_number_def)
  show "cashSubtotal (s\<lparr>cashEntries :=
        [Row \<lparr>denomination = Val (Finite 20000), quantity = Val (Finite 2)\<rparr>,
         Row \<lparr>denomination = Val (Finite 10000), quantity = Null\<rparr>]\<rparr>) = Some (Finite 40000)"
    by (simp add: cashSubtotal_def number_eval)
qed

theorem cashSubtotal_sum_witness:
  "safe_from 0 [\<lparr>denomination = Val (Finite 20000), quantity = Val (Finite 2)\<rparr>,
                \<lparr>denomination = Val (Finite 10000), quantity = Null\<rparr>]
   \<and> cashSubtotal (initial_state\<lparr>cashEntries :=
        map Row [\<lparr>denomination = Val (Finite 20000), quantity = Val (Finite 2)\<rparr>,
                 \<lparr>denomination = Val (Finite 10000), quantity = Null\<rparr>]\<rparr>) = Some (Finite 40000)"
  using cashSubtotal_sum [where s = initial_state
      and rows = "[\<lparr>denomination = Val (Finite 20000), quantity = Val (Finite 2)\<rparr>,
                   \<lparr>denomination = Val (Finite 10000), quantity = Null\<rparr>]"]
  by (simp add: exact_cashSubtotal_def number_eval)

text \<open>
  C7 as stated, with the exact sum for every list, does not hold: the product of 94906267
  and 94906267 is 9007199515875289, which is not a double, and the subtotal of that one row
  is the nearest double 9007199515875288.
\<close>

lemma round_94906267_squared: "round_double 9007199515875289 = Finite 9007199515875288"
proof -
  have e: "exponent 9007199515875289 = 53"
    by (simp add: exponent_def ilog2.simps)
  have p: "pow2 1 = 2"
    by (simp add: pow2_def)
  have r: "round_half_even (9007199515875289 / 2) = 4503599757937644"
    by (simp add: round_half_even_def Let_def floor_rat_numeral)
  show ?thesis
    by (simp add: round_double_def Let_def e p r)
qed

theorem cashSubtotal_sum_counterexample:
  "cashSubtotal (initial_state\<lparr>cashEntries :=
      [Row \<lparr>denomination = Val (Finite 94906267), quantity = Val (Finite 94906267)\<rparr>]\<rparr>)
     = Some (Finite 9007199515875288)
   \<and> exact_cashSubtotal [\<lparr>denomination = Val (Finite 94906267), quantity = Val (Finite 94906267)\<rparr>]
     = 9007199515875289"
proof
  have "Finite 94906267 * Finite 94906267 = Finite 9007199515875288"
    by (simp add: times_number_def round_94906267_squared)
  moreover have "0 + Finite 9007199515875288 = Finite 9007199515875288"
    by (simp add: add_zero_number round_double_idem [OF round_94906267_squared])
  ultimately show "cashSubtotal (initial_state\<lparr>cashEntries :=
      [Row \<lparr>denomination = Val (Finite 94906267), quantity = Val (Finite 94906267)\<rparr>]\<rparr>)
     = Some (Finite 9007199515875288)"
    by (simp add: cashSubtotal_def)
  show "exact_cashSubtotal [\<lparr>denomination = Val (Finite 94906267), quantity = Val (Finite 94906267)\<rparr>]
     = 9007199515875289"
    by (simp add: exact_cashSubtotal_def)
qed

text \<open>
  C6. In every state \<open>absoluteTotal\<close> is \<open>digitalIncomeSubtotal + cashSubtotal +
  expensesSubtotal\<close> (and throws exactly when one of the two list sums throws), and
  \<open>difference\<close> is \<open>absoluteTotal\<close> minus \<open>dailySummary\<close>, an absent \<open>dailySummary\<close>
  counting as 0, so that \<open>difference\<close> is \<open>absoluteTotal\<close> then. On lists of rows the
  total is \<open>digitalIncomeSubtotal\<close> plus the sum over the cash rows plus the sum over the
  expense rows, whatever the signs of the amounts.
\<close>

theorem absoluteTotal_difference:
  "absoluteTotal s =
     do { c \<leftarrow> cashSubtotal s; e \<leftarrow> expensesSubtotal s;
          Some (digitalIncomeSubtotal s + c + e) }
   \<and> difference s =
     do { a \<leftarrow> absoluteTotal s;
          Some (a - (case dailySummary s of None \<Rightarrow> 0 | Some d \<Rightarrow> d)) }
   \<and> (dailySummary s = None \<longrightarrow> difference s = absoluteTotal s)
   \<and> absoluteTotal (s\<lparr>cashEntries := map Row cs, expenses := map Row es\<rparr>) =
       Some (digitalIncomeSubtotal s + spec_cashSubtotal cs + spec_expensesSubtotal es)"
proof (intro conjI impI)
  show "absoluteTotal s =
     do { c \<leftarrow> cashSubtotal s; e \<leftarrow> expensesSubtotal s;
          Some (digitalIncomeSubtotal s + c + e) }"
    by (simp add: absoluteTotal_def totalIncome_def)
  show "difference s =
     do { a \<leftarrow> absoluteTotal s;
          Some (a - (case dailySummary s of None \<Rightarrow> 0 | Some d \<Rightarrow> d)) }"
    by (cases "dailySummary s") (simp_all add: difference_def)
  show "difference s = absoluteTotal s" if "dailySummary s = None"
    using that
    by (cases "totalIncome s"; cases "expensesSubtotal s")
       (simp_all add: difference_def absoluteTotal_def js_add_zero_right)
  let ?s = "s\<lparr>cashEntries := map Row cs, expenses := map Row es\<rparr>"
  have c: "cashSubtotal ?s = Some (spec_cashSubtotal cs)"
    by (rule cashSubtotal_rows) simp
  have e: "expensesSubtotal ?s = Some (spec_expensesSubtotal es)"
    by (rule expensesSubtotal_rows) simp
  have d: "digitalIncomeSubtotal ?s = digitalIncomeSubtotal s"
    by (simp add: digitalIncomeSubtotal_def)
  show "absoluteTotal ?s =
       Some (digitalIncomeSubtotal s + spec_cashSubtotal cs + spec_expensesSubtotal es)"
    by (simp add: absoluteTotal_def totalIncome_def c e d)
qed

theorem absoluteTotal_difference_witness:
  "dailySummary (initial_state\<lparr>firstDataIncome := Some (Finite 100)\<rparr>) = None
   \<and> difference (initial_state\<lparr>firstDataIncome := Some (Finite 100)\<rparr>)
       = absoluteTotal (initial_state\<lparr>firstDataIncome := Some (Finite 100)\<rparr>)
   \<and> absoluteTotal (initial_state\<lparr>firstDataIncome := Some (Finite 100),
        cashEntries := map Row [\<lparr>denomination = Val (Finite 20000), quantity = Val (Finite 2)\<rparr>],
        expenses := map Row [\<lparr>detail = Val ''ice'', amount = Val (Finite (- 15))\<rparr>]\<rparr>)
       = Some (Finite 40085)"
proof -
  let ?s = "initial_state\<lparr>firstDataIncome := Some (Finite 100)\<rparr>"
  let ?cs = "[\<lparr>denomination = Val (Finite 20000), quantity = Val (Finite 2)\<rparr>]"
  let ?es = "[\<lparr>detail = Val ''ice'', amount = Val (Finite (- 15))\<rparr>]"
  note t = absoluteTotal_difference [where s = ?s and cs = ?cs and es = ?es]
  have n: "dailySummary ?s = None"
    by (simp add: initial_state_def)
  with t have d: "difference ?s = absoluteTotal ?s"
    by blast
  have v: "digitalIncomeSubtotal ?s + spec_cashSubtotal ?cs + spec_expensesSubtotal ?es
      = Finite 40085"
    by (simp add: initial_state_def digitalIncomeSubtotal_def spec_cashSubtotal_def
        spec_expensesSubtotal_def number_eval)
  from t have "absoluteTotal (?s\<lparr>cashEntries := map Row ?cs, expenses := map Row ?es\<rparr>)
      = Some (digitalIncomeSubtotal ?s + spec_cashSubtotal ?cs + spec_expensesSubtotal ?es)"
    by blast
  with v have "absoluteTotal (?s\<lparr>cashEntries := map Row ?cs, expenses := map Row ?es\<rparr>)
      = Some (Finite 40085)"
    by simp
  with n d show ?thesis by simp
qed

section \<open>The batch\<close>

lemma push_expense_qualifies:
  "push_expense now name sh acc e =
     (if qualifies e then acc @ [expense_log now name sh e] else acc)"
  by (cases "amount e"; cases "detail e")
     (auto simp: push_expense_def qualifies_def expense_log_def less_imp_truthy)

lemma foldl_push_expense:
  "foldl (push_expense now name sh) acc es =
     acc @ map (expense_log now name sh) (filter qualifies es)"
  by (induction es arbitrary: acc) (simp_all add: push_expense_qualifies)

lemma difference_rows:
  assumes "cashEntries s = map Row cs" "expenses s = map Row es"
  shows "difference s = Some (digitalIncomeSubtotal s + spec_cashSubtotal cs
           + spec_expensesSubtotal es - or0 (dailySummary s))"
  using assms
  by (simp add: difference_def absoluteTotal_def totalIncome_def
      cashSubtotal_rows expensesSubtotal_rows)

lemma newLogEntries_rows:
  assumes "cashEntries s = map Row cs" "expenses s = map Row es"
  shows "newLogEntries now s = Some (spec_batch now s cs es)"
proof -
  have c: "cashSubtotal s = Some (spec_cashSubtotal cs)"
    using assms by (simp add: cashSubtotal_rows)
  have d: "difference s = Some (digitalIncomeSubtotal s + spec_cashSubtotal cs
           + spec_expensesSubtotal es - or0 (dailySummary s))"
    using assms by (rule difference_rows)
  show ?thesis
    by (cases "firstDataIncome s"; cases "pedidosYaIncome s"; cases "mercadoPagoIncome s";
        cases "dailySummary s")
       (simp_all add: newLogEntries_def spec_batch_def income_log_def c d assms(2)
          reduce_Row foldl_push_expense digitalIncomeSubtotal_def Let_def)
qed

text \<open>The batch depends on the Form State only.\<close>

lemma cashSubtotal_form: "cashEntries s = cashEntries t \<Longrightarrow> cashSubtotal s = cashSubtotal t"
  by (simp add: cashSubtotal_def)

lemma expensesSubtotal_form: "expenses s = expenses t \<Longrightarrow> expensesSubtotal s = expensesSubtotal t"
  by (simp add: expensesSubtotal_def)

lemma newLogEntries_form:
  assumes "form_of s = form_of t"
  shows "newLogEntries now s = newLogEntries now t"
proof -
  from assms have f: "closerName s = closerName t" "shift s = shift t"
      "firstDataIncome s = firstDataIncome t" "pedidosYaIncome s = pedidosYaIncome t"
      "mercadoPagoIncome s = mercadoPagoIncome t" "dailySummary s = dailySummary t"
      "cashEntries s = cashEntries t" "expenses s = expenses t"
    by (simp_all add: form_of_def)
  have c: "cashSubtotal s = cashSubtotal t" using f(7) by (rule cashSubtotal_form)
  have e: "expensesSubtotal s = expensesSubtotal t" using f(8) by (rule expensesSubtotal_form)
  have d: "difference s = difference t"
    by (simp add: difference_def absoluteTotal_def totalIncome_def digitalIncomeSubtotal_def c e f)
  show ?thesis
    unfolding newLogEntries_def c d f ..
qed

text \<open>The two writes that start \<^verbatim>\<open>submitForm\<close>, and what follows them.\<close>

lemma form_of_started:
  "form_of (set_webhookError x (set_webhookStatus pl v s)) = form_of s"
  by (simp add: form_of_def set_webhookStatus_def set_webhookError_def)

lemma submitForm_valid:
  assumes "closerName s \<noteq> []" "shift s \<noteq> []"
  shows "submitForm now s =
     (case newLogEntries now s of
        None \<Rightarrow>
          (s\<lparr>webhookStatus := Sending, webhookError := None,
             statusLog := statusLog s @ [(SubmitStart, webhookStatus s, Sending)],
             errorLog := errorLog s @ [None]\<rparr>, TypeError)
      | Some batch \<Rightarrow>
          if batch = []
          then (s\<lparr>webhookStatus := Error, webhookError := Some msg_empty,
                  statusLog := statusLog s @ [(SubmitStart, webhookStatus s, Sending),
                                              (SubmitEmpty, Sending, Error)],
                  errorLog := errorLog s @ [None, Some msg_empty]\<rparr>, NoRequest)
          else (s\<lparr>webhookStatus := Sending, webhookError := None,
                  statusLog := statusLog s @ [(SubmitStart, webhookStatus s, Sending)],
                  errorLog := errorLog s @ [None]\<rparr>, Request batch))"
proof -
  let ?s1 = "set_webhookError None (set_webhookStatus SubmitStart Sending s)"
  have n: "newLogEntries now ?s1 = newLogEntries now s"
    by (rule newLogEntries_form) (rule form_of_started)
  have v: "closerName ?s1 \<noteq> []" "shift ?s1 \<noteq> []"
    using assms by (simp_all add: set_webhookStatus_def set_webhookError_def)
  have "submitForm now s =
     (case newLogEntries now s of
        None \<Rightarrow> (?s1, TypeError)
      | Some batch \<Rightarrow>
          if batch = []
          then (set_webhookError (Some msg_empty) (set_webhookStatus SubmitEmpty Error ?s1),
                NoRequest)
          else (?s1, Request batch))"
    using v by (simp add: submitForm_def Let_def n split: option.split)
  then show ?thesis
    by (simp add: set_webhookStatus_def set_webhookError_def split: option.split)
qed

lemma submitForm_invalid:
  assumes "closerName s = [] \<or> shift s = []"
  shows "submitForm now s =
     (s\<lparr>webhookStatus := Error, webhookError := Some msg_validation,
        statusLog := statusLog s @ [(SubmitStart, webhookStatus s, Sending),
                                    (SubmitInvalid, Sending, Error)],
        errorLog := errorLog s @ [None, Some msg_validation]\<rparr>, NoRequest)"
proof -
  let ?s1 = "set_webhookError None (set_webhookStatus SubmitStart Sending s)"
  have v: "closerName ?s1 = [] \<or> shift ?s1 = []"
    using assms by (simp add: set_webhookStatus_def set_webhookError_def)
  have "submitForm now s =
     (set_webhookError (Some msg_validation) (set_webhookStatus SubmitInvalid Error ?s1),
      NoRequest)"
    using v by (simp add: submitForm_def Let_def)
  then show ?thesis
    by (simp add: set_webhookStatus_def set_webhookError_def)
qed

text \<open>
  C1. In a state whose lists hold rows, \<^verbatim>\<open>submitForm\<close> builds exactly this batch, in this
  order: one entry for each digital income greater than 0 (First Data, PedidosYa, Mercado
  Pago, each with its own category and label and the income as amount), one cash entry if
  and only if \<open>cashSubtotal\<close> is greater than 0, one entry for each qualifying expense row,
  and, if and only if \<open>dailySummary\<close> is present (0 is present), the manual summary
  followed by the difference. When the name and the shift are filled in and the batch is
  not empty, that batch is what the request carries. For \<open>firstDataIncome = 100\<close>, a cash
  subtotal of 40000, the one expense \<open>{ice, 15}\<close> and \<open>dailySummary = 40085\<close> the batch is
  the five entries with the amounts 100, 40000, -15, 40085 and 30.
\<close>

theorem submit_batch:
  assumes "cashEntries s = map Row cs" and "expenses s = map Row es"
  shows "newLogEntries now s = Some (spec_batch now s cs es)
    \<and> (closerName s \<noteq> [] \<and> shift s \<noteq> [] \<and> spec_batch now s cs es \<noteq> [] \<longrightarrow>
         snd (submitForm now s) = Request (spec_batch now s cs es))
    \<and> (firstDataIncome s = Some (Finite 100) \<and> pedidosYaIncome s = None
        \<and> mercadoPagoIncome s = None
        \<and> spec_cashSubtotal cs = Finite 40000
        \<and> es = [\<lparr>detail = Val ''ice'', amount = Val (Finite 15)\<rparr>]
        \<and> dailySummary s = Some (Finite 40085) \<longrightarrow>
         newLogEntries now s = Some
           [\<lparr>day = now, log_closerName = closerName s, log_shift = shift s,
              accountingImputation = ''Ventas con Tarjeta'',
              accountEntry = ''Ingreso: First Data'', log_amount = Finite 100\<rparr>,
            \<lparr>day = now, log_closerName = closerName s, log_shift = shift s,
              accountingImputation = ''Ventas en Efectivo'',
              accountEntry = ''Ingreso: Efectivo'', log_amount = Finite 40000\<rparr>,
            \<lparr>day = now, log_closerName = closerName s, log_shift = shift s,
              accountingImputation = ''Gastos Operativos'',
              accountEntry = ''Gasto: ice'', log_amount = Finite (- 15)\<rparr>,
            \<lparr>day = now, log_closerName = closerName s, log_shift = shift s,
              accountingImputation = ''Cierre'',
              accountEntry = ''Resumen Diario (Manual)'', log_amount = Finite 40085\<rparr>,
            \<lparr>day = now, log_closerName = closerName s, log_shift = shift s,
              accountingImputation = ''Cierre'',
              accountEntry = ''Diferencia de Caja'', log_amount = Finite 30\<rparr>])"
proof (intro conjI impI)
  show b: "newLogEntries now s = Some (spec_batch now s cs es)"
    using assms by (rule newLogEntries_rows)
  show "snd (submitForm now s) = Request (spec_batch now s cs es)"
    if "closerName s \<noteq> [] \<and> shift s \<noteq> [] \<and> spec_batch now s cs es \<noteq> []"
    using that by (simp add: submitForm_valid b)
  assume e: "firstDataIncome s = Some (Finite 100) \<and> pedidosYaIncome s = None
        \<and> mercadoPagoIncome s = None
        \<and> spec_cashSubtotal cs = Finite 40000
        \<and> es = [\<lparr>detail = Val ''ice'', amount = Val (Finite 15)\<rparr>]
        \<and> dailySummary s = Some (Finite 40085)"
  then have "spec_batch now s cs es =
           [\<lparr>day = now, log_closerName = closerName s, log_shift = shift s,
              accountingImputation = ''Ventas con Tarjeta'',
              accountEntry = ''Ingreso: First Data'', log_amount = Finite 100\<rparr>,
            \<lparr>day = now, log_closerName = closerName s, log_shift = shift s,
              accountingImputation = ''Ventas en Efectivo'',
              accountEntry = ''Ingreso: Efectivo'', log_amount = Finite 40000\<rparr>,
            \<lparr>day = now, log_closerName = closerName s, log_shift = shift s,
              accountingImputation = ''Gastos Operativos'',
              accountEntry = ''Gasto: ice'', log_amount = Finite (- 15)\<rparr>,
            \<lparr>day = now, log_closerName = closerName s, log_shift = shift s,
              accountingImputation = ''Cierre'',
              accountEntry = ''Resumen Diario (Manual)'', log_amount = Finite 40085\<rparr>,
            \<lparr>day = now, log_closerName = closerName s, log_shift = shift s,
              accountingImputation = ''Cierre'',
              accountEntry = ''Diferencia de Caja'', log_amount = Finite 30\<rparr>]"
    by (simp add: spec_batch_def income_log_def qualifies_def expense_log_def
        spec_expensesSubtotal_def number_eval)
  with b show "newLogEntries now s = Some
           [\<lparr>day = now, log_closerName = closerName s, log_shift = shift s,
              accountingImputation = ''Ventas con Tarjeta'',
              accountEntry = ''Ingreso: First Data'', log_amount = Finite 100\<rparr>,
            \<lparr>day = now, log_closerName = closerName s, log_shift = shift s,
              accountingImputation = ''Ventas en Efectivo'',
              accountEntry = ''Ingreso: Efectivo'', log_amount = Finite 40000\<rparr>,
            \<lparr>day = now, log_closerName = closerName s, log_shift = shift s,
              accountingImputation = ''Gastos Operativos'',
              accountEntry = ''Gasto: ice'', log_amount = Finite (- 15)\<rparr>,
            \<lparr>day = now, log_closerName = closerName s, log_shift = shift s,
              accountingImputation = ''Cierre'',
              accountEntry = ''Resumen Diario (Manual)'', log_amount = Finite 40085\<rparr>,
            \<lparr>day = now, log_closerName = closerName s, log_shift = shift s,
              accountingImputation = ''Cierre'',
              accountEntry = ''Diferencia de Caja'', log_amount = Finite 30\<rparr>]"
    by simp
qed

theorem submit_batch_witness:
  "snd (submitForm ''2024-05-01T22:00:00.000Z''
     (initial_state\<lparr>closerName := ''Ana'', firstDataIncome := Some (Finite 100),
        dailySummary := Some (Finite 40085),
        cashEntries := map Row [\<lparr>denomination = Val (Finite 20000), quantity = Val (Finite 2)\<rparr>,
                                \<lparr>denomination = Val (Finite 10000), quantity = Null\<rparr>],
        expenses := map Row [\<lparr>detail = Val ''ice'', amount = Val (Finite 15)\<rparr>]\<rparr>))
   = Request
      [\<lparr>day = ''2024-05-01T22:00:00.000Z'', log_closerName = ''Ana'', log_shift = manana,
         accountingImputation = ''Ventas con Tarjeta'',
         accountEntry = ''Ingreso: First Data'', log_amount = Finite 100\<rparr>,
       \<lparr>day = ''2024-05-01T22:00:00.000Z'', log_closerName = ''Ana'', log_shift = manana,
         accountingImputation = ''Ventas en Efectivo'',
         accountEntry = ''Ingreso: Efectivo'', log_amount = Finite 40000\<rparr>,
       \<lparr>day = ''2024-05-01T22:00:00.000Z'', log_closerName = ''Ana'', log_shift = manana,
         accountingImputation = ''Gastos Operativos'',
         accountEntry = ''Gasto: ice'', log_amount = Finite (- 15)\<rparr>,
       \<lparr>day = ''2024-05-01T22:00:00.000Z'', log_closerName = ''Ana'', log_shift = manana,
         accountingImputation = ''Cierre'',
         accountEntry = ''Resumen Diario (Manual)'', log_amount = Finite 40085\<rparr>,
       \<lparr>day = ''2024-05-01T22:00:00.000Z'', log_closerName = ''Ana'', log_shift = manana,
         accountingImputation = ''Cierre'',
         accountEntry = ''Diferencia de Caja'', log_amount = Finite 30\<rparr>]"
proof -
  let ?cs = "[\<lparr>denomination = Val (Finite 20000), quantity = Val (Finite 2)\<rparr>,
              \<lparr>denomination = Val (Finite 10000), quantity = Null\<rparr>]"
  let ?es = "[\<lparr>detail = Val ''ice'', amount = Val (Finite 15)\<rparr>]"
  let ?s = "initial_state\<lparr>closerName := ''Ana'', firstDataIncome := Some (Finite 100),
        dailySummary := Some (Finite 40085),
        cashEntries := map Row ?cs, expenses := map Row ?es\<rparr>"
  let ?now = "''2024-05-01T22:00:00.000Z''"
  have c: "spec_cashSubtotal ?cs = Finite 40000"
    by (simp add: spec_cashSubtotal_def number_eval)
  have h: "cashEntries ?s = map Row ?cs" "expenses ?s = map Row ?es"
      "firstDataIncome ?s = Some (Finite 100)" "pedidosYaIncome ?s = None"
      "mercadoPagoIncome ?s = None" "dailySummary ?s = Some (Finite 40085)"
      "closerName ?s = ''Ana''" "shift ?s = manana"
    by (simp_all add: initial_state_def)
  note t = submit_batch [OF h(1,2), where now = ?now]
  from t c h have b: "newLogEntries ?now ?s = Some
      [\<lparr>day = ?now, log_closerName = closerName ?s, log_shift = shift ?s,
         accountingImputation = ''Ventas con Tarjeta'',
         accountEntry = ''Ingreso: First Data'', log_amount = Finite 100\<rparr>,
       \<lparr>day = ?now, log_closerName = closerName ?s, log_shift = shift ?s,
         accountingImputation = ''Ventas en Efectivo'',
         accountEntry = ''Ingreso: Efectivo'', log_amount = Finite 40000\<rparr>,
       \<lparr>day = ?now, log_closerName = closerName ?s, log_shift = shift ?s,
         accountingImputation = ''Gastos Operativos'',
         accountEntry = ''Gasto: ice'', log_amount = Finite (- 15)\<rparr>,
       \<lparr>day = ?now, log_closerName = closerName ?s, log_shift = shift ?s,
         accountingImputation = ''Cierre'',
         accountEntry = ''Resumen Diario (Manual)'', log_amount = Finite 40085\<rparr>,
       \<lparr>day = ?now, log_closerName = closerName ?s, log_shift = shift ?s,
         accountingImputation = ''Cierre'',
         accountEntry = ''Diferencia de Caja'', log_amount = Finite 30\<rparr>]"
    by blast
  from t have n: "newLogEntries ?now ?s = Some (spec_batch ?now ?s ?cs ?es)"
    by blast
  with b have ne: "spec_batch ?now ?s ?cs ?es \<noteq> []"
    by auto
  have v: "closerName ?s \<noteq> []" "shift ?s \<noteq> []"
    by (simp_all add: initial_state_def manana_def)
  from t v ne have "snd (submitForm ?now ?s) = Request (spec_batch ?now ?s ?cs ?es)"
    by blast
  moreover have "shift initial_state = manana"
    by (simp add: initial_state_def)
  ultimately show ?thesis
    using n b by simp
qed

lemma filter_income_log:
  "imputation \<noteq> ''Gastos Operativos'' \<Longrightarrow>
     filter is_expense_log (income_log now name sh imputation label a) = []"
  by (simp add: income_log_def is_expense_log_def)

lemma filter_expense_log:
  "filter is_expense_log (map (expense_log now name sh) es) = map (expense_log now name sh) es"
  by (induction es) (simp_all add: is_expense_log_def expense_log_def)

lemma filter_spec_batch:
  "filter is_expense_log (spec_batch now s cs es) =
     map (expense_log now (closerName s) (shift s)) (filter qualifies es)"
proof -
  have closing: "filter is_expense_log
     (case dailySummary s of
          None \<Rightarrow> []
        | Some d \<Rightarrow>
            [\<lparr>day = now, log_closerName = closerName s, log_shift = shift s,
              accountingImputation = ''Cierre'', accountEntry = ''Resumen Diario (Manual)'',
              log_amount = d\<rparr>,
             \<lparr>day = now, log_closerName = closerName s, log_shift = shift s,
              accountingImputation = ''Cierre'', accountEntry = ''Diferencia de Caja'',
              log_amount =
                or0 (firstDataIncome s) + or0 (pedidosYaIncome s) + or0 (mercadoPagoIncome s)
                + spec_cashSubtotal cs + spec_expensesSubtotal es - d\<rparr>]) = []"
    by (cases "dailySummary s") (simp_all add: is_expense_log_def)
  show ?thesis
    unfolding spec_batch_def filter_append closing
    by (simp add: filter_income_log filter_expense_log)
qed

text \<open>
  C8. An expense row adds a ledger entry if and only if its amount is present and greater
  than 0 and its detail is not empty; the entry has the negated amount and the label
  \<open>Gasto: \<close> followed by the detail. Any other row leaves the batch as it was, whatever
  its other field holds, and the batch is still built: the expense entries of the batch are
  the entries of the qualifying rows, in the order of the rows.
\<close>

theorem expense_rows:
  "push_expense now name sh acc e =
     (if qualifies e then acc @ [expense_log now name sh e] else acc)
   \<and> qualifies e = (\<exists>a d. amount e = Val a \<and> 0 < a \<and> detail e = Val d \<and> d \<noteq> [])
   \<and> (amount e = Val a \<and> detail e = Val d \<longrightarrow>
        log_amount (expense_log now name sh e) = - a
        \<and> accountEntry (expense_log now name sh e) = ''Gasto: '' @ d)
   \<and> map_option (filter is_expense_log)
        (newLogEntries now (s\<lparr>cashEntries := map Row cs, expenses := map Row es\<rparr>)) =
      Some (map (expense_log now (closerName s) (shift s)) (filter qualifies es))"
proof (intro conjI impI)
  show "push_expense now name sh acc e =
     (if qualifies e then acc @ [expense_log now name sh e] else acc)"
    by (rule push_expense_qualifies)
  show "qualifies e = (\<exists>a d. amount e = Val a \<and> 0 < a \<and> detail e = Val d \<and> d \<noteq> [])"
    by (cases "amount e"; cases "detail e") (simp_all add: qualifies_def)
  show "log_amount (expense_log now name sh e) = - a" if "amount e = Val a \<and> detail e = Val d"
    using that by (simp add: expense_log_def)
  show "accountEntry (expense_log now name sh e) = ''Gasto: '' @ d"
    if "amount e = Val a \<and> detail e = Val d"
    using that by (simp add: expense_log_def)
  let ?s = "s\<lparr>cashEntries := map Row cs, expenses := map Row es\<rparr>"
  have "newLogEntries now ?s = Some (spec_batch now ?s cs es)"
    by (rule newLogEntries_rows) simp_all
  then show "map_option (filter is_expense_log) (newLogEntries now ?s) =
      Some (map (expense_log now (closerName s) (shift s)) (filter qualifies es))"
    by (simp add: filter_spec_batch)
qed

theorem expense_rows_witness:
  "amount \<lparr>detail = Val ''ice'', amount = Val (Finite 15)\<rparr> = Val (Finite 15)
   \<and> detail \<lparr>detail = Val ''ice'', amount = Val (Finite 15)\<rparr> = Val ''ice''
   \<and> log_amount (expense_log ''t'' ''Ana'' manana \<lparr>detail = Val ''ice'', amount = Val (Finite 15)\<rparr>)
       = Finite (- 15)
   \<and> accountEntry (expense_log ''t'' ''Ana'' manana \<lparr>detail = Val ''ice'', amount = Val (Finite 15)\<rparr>)
       = ''Gasto: ice''
   \<and> push_expense ''t'' ''Ana'' manana [] \<lparr>detail = Val [], amount = Val (Finite 15)\<rparr> = []
   \<and> push_expense ''t'' ''Ana'' manana [] \<lparr>detail = Val ''ice'', amount = Val (Finite 0)\<rparr> = []
   \<and> push_expense ''t'' ''Ana'' manana [] \<lparr>detail = Val ''ice'', amount = Null\<rparr> = []"
  using expense_rows [where e = "\<lparr>detail = Val ''ice'', amount = Val (Finite 15)\<rparr>"
      and a = "Finite 15" and d = "''ice''" and now = "''t''" and name = "''Ana''" and sh = manana]
    expense_rows [where e = "\<lparr>detail = Val [], amount = Val (Finite 15)\<rparr>" and acc = "[]"
      and now = "''t''" and name = "''Ana''" and sh = manana]
    expense_rows [where e = "\<lparr>detail = Val ''ice'', amount = Val (Finite 0)\<rparr>" and acc = "[]"
      and now = "''t''" and name = "''Ana''" and sh = manana]
    expense_rows [where e = "\<lparr>detail = Val ''ice'', amount = Null\<rparr>" and acc = "[]"
      and now = "''t''" and name = "''Ana''" and sh = manana]
  by (simp add: qualifies_def number_eval)

section \<open>Submission outcomes\<close>

lemma submitForm_NoRequest:
  assumes "snd (submitForm now s) = NoRequest"
  shows "webhookStatus (fst (submitForm now s)) = Error
    \<and> (webhookError (fst (submitForm now s)) = Some msg_validation
         \<and> errorLog (fst (submitForm now s)) = errorLog s @ [None, Some msg_validation]
       \<or> webhookError (fst (submitForm now s)) = Some msg_empty
         \<and> errorLog (fst (submitForm now s)) = errorLog s @ [None, Some msg_empty])
    \<and> form_of (fst (submitForm now s)) = form_of s
    \<and> logHistory (fst (submitForm now s)) = logHistory s"
proof (cases "closerName s = [] \<or> shift s = []")
  case True
  then show ?thesis
    by (simp add: submitForm_invalid form_of_def)
next
  case False
  then have v: "closerName s \<noteq> []" "shift s \<noteq> []" by simp_all
  show ?thesis
    using assms
    by (auto simp: submitForm_valid [OF v] form_of_def split: option.splits if_splits)
qed

text \<open>
  C4. A submit action whose validation fails (the name or the shift is empty) ends in the
  status \<open>Error\<close> with the validation message; one whose batch is empty ends in \<open>Error\<close>
  with the message that there is nothing to record. In both cases \<^verbatim>\<open>submitForm\<close> returns
  without a request (the pending requests and timers are as before), and it writes
  \<^verbatim>\<open>webhookError\<close> twice: first \<^verbatim>\<open>null\<close>, which clears the previous message, then the new
  message. With the name and shift filled in, all three incomes 0, a cash subtotal of 0, no
  qualifying expense and no daily summary, the batch is empty and the empty-batch branch is
  taken.
\<close>

theorem submit_rejected:
  "(closerName s = [] \<or> shift s = [] \<longrightarrow>
      submitForm now s =
        (s\<lparr>webhookStatus := Error, webhookError := Some msg_validation,
           statusLog := statusLog s @ [(SubmitStart, webhookStatus s, Sending),
                                       (SubmitInvalid, Sending, Error)],
           errorLog := errorLog s @ [None, Some msg_validation]\<rparr>, NoRequest))
   \<and> (closerName s \<noteq> [] \<and> shift s \<noteq> [] \<and> newLogEntries now s = Some [] \<longrightarrow>
      submitForm now s =
        (s\<lparr>webhookStatus := Error, webhookError := Some msg_empty,
           statusLog := statusLog s @ [(SubmitStart, webhookStatus s, Sending),
                                       (SubmitEmpty, Sending, Error)],
           errorLog := errorLog s @ [None, Some msg_empty]\<rparr>, NoRequest))
   \<and> (snd (submitForm now (app w)) = NoRequest \<longrightarrow>
        (\<exists>w'. step (Submit now) w = Some w'
           \<and> inflight w' = inflight w \<and> timers w' = timers w
           \<and> webhookStatus (app w') = Error
           \<and> (webhookError (app w') = Some msg_validation
                \<and> errorLog (app w') = errorLog (app w) @ [None, Some msg_validation]
              \<or> webhookError (app w') = Some msg_empty
                \<and> errorLog (app w') = errorLog (app w) @ [None, Some msg_empty])))
   \<and> (closerName s \<noteq> [] \<and> shift s \<noteq> []
       \<and> firstDataIncome s = Some (Finite 0) \<and> pedidosYaIncome s = Some (Finite 0)
       \<and> mercadoPagoIncome s = Some (Finite 0) \<and> dailySummary s = None
       \<and> cashEntries s = map Row cs \<and> spec_cashSubtotal cs = Finite 0
       \<and> expenses s = map Row es \<and> filter qualifies es = [] \<longrightarrow>
        newLogEntries now s = Some []
        \<and> webhookStatus (fst (submitForm now s)) = Error
        \<and> webhookError (fst (submitForm now s)) = Some msg_empty
        \<and> errorLog (fst (submitForm now s)) = errorLog s @ [None, Some msg_empty]
        \<and> snd (submitForm now s) = NoRequest)"
proof (intro conjI impI)
  show "submitForm now s =
        (s\<lparr>webhookStatus := Error, webhookError := Some msg_validation,
           statusLog := statusLog s @ [(SubmitStart, webhookStatus s, Sending),
                                       (SubmitInvalid, Sending, Error)],
           errorLog := errorLog s @ [None, Some msg_validation]\<rparr>, NoRequest)"
    if "closerName s = [] \<or> shift s = []"
    using that by (rule submitForm_invalid)
  show "submitForm now s =
        (s\<lparr>webhookStatus := Error, webhookError := Some msg_empty,
           statusLog := statusLog s @ [(SubmitStart, webhookStatus s, Sending),
                                       (SubmitEmpty, Sending, Error)],
           errorLog := errorLog s @ [None, Some msg_empty]\<rparr>, NoRequest)"
    if "closerName s \<noteq> [] \<and> shift s \<noteq> [] \<and> newLogEntries now s = Some []"
    using that by (simp add: submitForm_valid)
  show "\<exists>w'. step (Submit now) w = Some w'
           \<and> inflight w' = inflight w \<and> timers w' = timers w
           \<and> webhookStatus (app w') = Error
           \<and> (webhookError (app w') = Some msg_validation
                \<and> errorLog (app w') = errorLog (app w) @ [None, Some msg_validation]
              \<or> webhookError (app w') = Some msg_empty
                \<and> errorLog (app w') = errorLog (app w) @ [None, Some msg_empty])"
    if n: "snd (submitForm now (app w)) = NoRequest"
  proof -
    obtain s' out where so: "submitForm now (app w) = (s', out)"
      by (cases "submitForm now (app w)")
    with n have out: "out = NoRequest" by simp
    have "webhookStatus s' = Error
      \<and> (webhookError s' = Some msg_validation
            \<and> errorLog s' = errorLog (app w) @ [None, Some msg_validation]
          \<or> webhookError s' = Some msg_empty
            \<and> errorLog s' = errorLog (app w) @ [None, Some msg_empty])"
      using submitForm_NoRequest [OF n] so by simp
    then show ?thesis
      by (simp add: so out issue_def)
  qed
  assume e: "closerName s \<noteq> [] \<and> shift s \<noteq> []
       \<and> firstDataIncome s = Some (Finite 0) \<and> pedidosYaIncome s = Some (Finite 0)
       \<and> mercadoPagoIncome s = Some (Finite 0) \<and> dailySummary s = None
       \<and> cashEntries s = map Row cs \<and> spec_cashSubtotal cs = Finite 0
       \<and> expenses s = map Row es \<and> filter qualifies es = []"
  then have "newLogEntries now s = Some (spec_batch now s cs es)"
    by (simp add: newLogEntries_rows)
  moreover have "spec_batch now s cs es = []"
    using e by (simp add: spec_batch_def income_log_def less_Finite)
  ultimately show b: "newLogEntries now s = Some []" by simp
  from e b have sf: "submitForm now s =
        (s\<lparr>webhookStatus := Error, webhookError := Some msg_empty,
           statusLog := statusLog s @ [(SubmitStart, webhookStatus s, Sending),
                                       (SubmitEmpty, Sending, Error)],
           errorLog := errorLog s @ [None, Some msg_empty]\<rparr>, NoRequest)"
    by (simp add: submitForm_valid)
  show "webhookStatus (fst (submitForm now s)) = Error"
    by (simp add: sf)
  show "webhookError (fst (submitForm now s)) = Some msg_empty"
    by (simp add: sf)
  show "errorLog (fst (submitForm now s)) = errorLog s @ [None, Some msg_empty]"
    by (simp add: sf)
  show "snd (submitForm now s) = NoRequest"
    by (simp add: sf)
qed

theorem submit_rejected_witness:
  "closerName initial_state = []
   \<and> fst (submitForm ''t'' (initial_state\<lparr>webhookError := Some ''old'', errorLog := [Some ''old'']\<rparr>)) =
       initial_state\<lparr>webhookStatus := Error, webhookError := Some msg_validation,
         statusLog := [(SubmitStart, Idle, Sending), (SubmitInvalid, Sending, Error)],
         errorLog := [Some ''old'', None, Some msg_validation]\<rparr>
   \<and> snd (submitForm ''t'' initial_state) = NoRequest
   \<and> map_option inflight (step (Submit ''t'') initial_world) = Some []
   \<and> newLogEntries ''t''
        (initial_state\<lparr>closerName := ''Ana'', firstDataIncome := Some (Finite 0),
           pedidosYaIncome := Some (Finite 0), mercadoPagoIncome := Some (Finite 0),
           cashEntries := [], expenses := []\<rparr>) = Some []
   \<and> errorLog (fst (submitForm ''t''
        (initial_state\<lparr>closerName := ''Ana'', firstDataIncome := Some (Finite 0),
           pedidosYaIncome := Some (Finite 0), mercadoPagoIncome := Some (Finite 0),
           cashEntries := [], expenses := []\<rparr>))) = [None, Some msg_empty]"
  using submit_rejected [where s = initial_state and now = "''t''" and w = initial_world]
    submit_rejected [where s = "initial_state\<lparr>webhookError := Some ''old'', errorLog := [Some ''old'']\<rparr>"
      and now = "''t''"]
    submit_rejected [where s = "initial_state\<lparr>closerName := ''Ana'',
           firstDataIncome := Some (Finite 0),
           pedidosYaIncome := Some (Finite 0), mercadoPagoIncome := Some (Finite 0),
           cashEntries := [], expenses := []\<rparr>" and now = "''t''" and cs = "[]" and es = "[]"]
  by (auto simp: initial_state_def initial_world_def manana_def spec_cashSubtotal_def
      zero_number_def)

lemma decimal_500: "decimal 500 = ''500''"
  by (simp add: decimal.simps digit_char_def)

lemma msg_distinct: "msg_server code \<noteq> msg_network"
  by (simp add: msg_server_def msg_network_def)

lemma form_of_post_error: "form_of (post_error code s) = form_of s"
  by (simp add: post_error_def form_of_def set_webhookStatus_def set_webhookError_def Let_def)

lemma submitForm_Request:
  assumes "submitForm now s = (s1, Request batch)"
  shows "form_of s1 = form_of s" and "logHistory s1 = logHistory s"
    and "newLogEntries now s = Some batch" and "batch \<noteq> []"
proof -
  have v: "closerName s \<noteq> []" "shift s \<noteq> []"
    using assms by (auto simp: submitForm_invalid)
  have "form_of s1 = form_of s \<and> logHistory s1 = logHistory s
    \<and> newLogEntries now s = Some batch \<and> batch \<noteq> []"
    using assms
    by (auto simp: submitForm_valid [OF v] form_of_def split: option.splits if_splits)
  then show "form_of s1 = form_of s" and "logHistory s1 = logHistory s"
    and "newLogEntries now s = Some batch" and "batch \<noteq> []"
    by blast+
qed

text \<open>
  C3. When the request fails, the status becomes \<open>Error\<close>; the message is the network
  message when the failure carries the status 0, and otherwise the server message, which
  contains the decimal status code and differs from the network message. The Form State
  and the History are those from before the submit action.
\<close>

theorem submit_failure:
  "webhookStatus (post_error code s) = Error
   \<and> webhookError (post_error code s) = Some (if code = 0 then msg_network else msg_server code)
   \<and> msg_server code = ''Error del servidor: '' @ decimal code @ ''.''
   \<and> msg_server 500 = ''Error del servidor: 500.''
   \<and> msg_server code \<noteq> msg_network
   \<and> form_of (post_error code s) = form_of s
   \<and> logHistory (post_error code s) = logHistory s
   \<and> (submitForm now s = (s1, Request batch) \<longrightarrow>
        form_of (post_error code s1) = form_of s
        \<and> logHistory (post_error code s1) = logHistory s)
   \<and> (snd (submitForm now (app w)) = Request batch \<longrightarrow>
        (\<exists>w'. run [Submit now, Failure (length (inflight w)) code] w = Some w'
           \<and> form_of (app w') = form_of (app w)
           \<and> logHistory (app w') = logHistory (app w)
           \<and> webhookStatus (app w') = Error
           \<and> webhookError (app w') = Some (if code = 0 then msg_network else msg_server code)
           \<and> inflight w' = inflight w \<and> timers w' = timers w))"
proof (intro conjI impI)
  show st: "webhookStatus (post_error code s) = Error" for s
    by (simp add: post_error_def set_webhookStatus_def set_webhookError_def Let_def)
  show er: "webhookError (post_error code s) =
      Some (if code = 0 then msg_network else msg_server code)" for s
    by (simp add: post_error_def set_webhookError_def Let_def)
  show "msg_server code = ''Error del servidor: '' @ decimal code @ ''.''"
    by (simp add: msg_server_def)
  show "msg_server 500 = ''Error del servidor: 500.''"
    by (simp add: msg_server_def decimal_500)
  show "msg_server code \<noteq> msg_network"
    by (rule msg_distinct)
  show "form_of (post_error code s) = form_of s"
    by (rule form_of_post_error)
  show lh: "logHistory (post_error code s) = logHistory s" for s
    by (simp add: post_error_def set_webhookStatus_def set_webhookError_def Let_def)
  show "form_of (post_error code s1) = form_of s" if "submitForm now s = (s1, Request batch)"
    using submitForm_Request(1) [OF that] by (simp add: form_of_post_error)
  show "logHistory (post_error code s1) = logHistory s" if "submitForm now s = (s1, Request batch)"
    using submitForm_Request(2) [OF that] by (simp add: lh)
  show "\<exists>w'. run [Submit now, Failure (length (inflight w)) code] w = Some w'
           \<and> form_of (app w') = form_of (app w)
           \<and> logHistory (app w') = logHistory (app w)
           \<and> webhookStatus (app w') = Error
           \<and> webhookError (app w') = Some (if code = 0 then msg_network else msg_server code)
           \<and> inflight w' = inflight w \<and> timers w' = timers w"
    if r: "snd (submitForm now (app w)) = Request batch"
  proof -
    obtain s1 where so: "submitForm now (app w) = (s1, Request batch)"
      using r by (cases "submitForm now (app w)") simp
    note f = submitForm_Request(1,2) [OF so]
    show ?thesis
      by (simp add: so issue_def drop_nth_def form_of_post_error lh st er f)
  qed
qed

theorem submit_failure_witness:
  "snd (submitForm ''t'' (initial_state\<lparr>closerName := ''Ana'', firstDataIncome := Some (Finite 100)\<rparr>))
     = Request [\<lparr>day = ''t'', log_closerName = ''Ana'', log_shift = manana,
                  accountingImputation = ''Ventas con Tarjeta'',
                  accountEntry = ''Ingreso: First Data'', log_amount = Finite 100\<rparr>]
   \<and> map_option (webhookError \<circ> app)
        (run [Submit ''t'', Failure 0 503]
           (initial_world\<lparr>app := initial_state\<lparr>closerName := ''Ana'',
              firstDataIncome := Some (Finite 100)\<rparr>\<rparr>))
     = Some (Some ''Error del servidor: 503.'')
   \<and> map_option (webhookError \<circ> app)
        (run [Submit ''t'', Failure 0 0]
           (initial_world\<lparr>app := initial_state\<lparr>closerName := ''Ana'',
              firstDataIncome := Some (Finite 100)\<rparr>\<rparr>))
     = Some (Some msg_network)
   \<and> map_option (form_of \<circ> app)
        (run [Submit ''t'', Failure 0 503]
           (initial_world\<lparr>app := initial_state\<lparr>closerName := ''Ana'',
              firstDataIncome := Some (Finite 100)\<rparr>\<rparr>))
     = Some (form_of (initial_state\<lparr>closerName := ''Ana'', firstDataIncome := Some (Finite 100)\<rparr>))"
proof -
  let ?s = "initial_state\<lparr>closerName := ''Ana'', firstDataIncome := Some (Finite 100)\<rparr>"
  let ?w = "initial_world\<lparr>app := ?s\<rparr>"
  let ?b = "[\<lparr>day = ''t'', log_closerName = ''Ana'', log_shift = manana,
                  accountingImputation = ''Ventas con Tarjeta'',
                  accountEntry = ''Ingreso: First Data'', log_amount = Finite 100\<rparr>]"
  have n: "newLogEntries ''t'' ?s = Some ?b"
    by (simp add: newLogEntries_def initial_state_def cashSubtotal_def expensesSubtotal_def
        DEFAULT_CASH_ENTRIES_def blank_expense_def push_expense_def number_eval)
  have v: "closerName ?s \<noteq> []" "shift ?s \<noteq> []"
    by (simp_all add: initial_state_def manana_def)
  have r: "snd (submitForm ''t'' (app ?w)) = Request ?b"
    by (simp add: submitForm_valid [OF v] n)
  have d: "decimal 503 = ''503''"
    by (simp add: decimal.simps digit_char_def)
  have h: "inflight ?w = []" "app ?w = ?s"
    by (simp_all add: initial_world_def)
  from submit_failure [where w = ?w and now = "''t''" and batch = ?b and code = 503] r
  obtain w1 where w1: "run [Submit ''t'', Failure (length (inflight ?w)) 503] ?w = Some w1"
     "form_of (app w1) = form_of (app ?w)"
     "webhookError (app w1) = Some (if (503::nat) = 0 then msg_network else msg_server 503)"
    by blast
  from submit_failure [where w = ?w and now = "''t''" and batch = ?b and code = 0] r
  obtain w2 where w2: "run [Submit ''t'', Failure (length (inflight ?w)) 0] ?w = Some w2"
     "webhookError (app w2) = Some (if (0::nat) = 0 then msg_network else msg_server 0)"
    by blast
  have "snd (submitForm ''t'' ?s) = Request ?b"
    using r by (simp only: h)
  moreover have "map_option (webhookError \<circ> app) (run [Submit ''t'', Failure 0 503] ?w)
     = Some (Some ''Error del servidor: 503.'')"
    using w1 by (simp add: h msg_server_def d)
  moreover have "map_option (webhookError \<circ> app) (run [Submit ''t'', Failure 0 0] ?w)
     = Some (Some msg_network)"
    using w2 by (simp add: h)
  moreover have "map_option (form_of \<circ> app) (run [Submit ''t'', Failure 0 503] ?w)
     = Some (form_of ?s)"
    using w1 by (simp add: h)
  ultimately show ?thesis by blast
qed

lemma form_of_resetForm: "form_of (resetForm s) = form_of initial_state"
  by (simp add: resetForm_def form_of_def initial_state_def blank_expense_def)

lemma form_of_post_next: "form_of (post_next batch s) = form_of initial_state"
  by (simp add: post_next_def Let_def form_of_resetForm)

lemma logHistory_post_next: "logHistory (post_next batch s) = batch @ logHistory s"
  by (simp add: post_next_def Let_def resetForm_def set_webhookStatus_def)

lemma webhookStatus_post_next: "webhookStatus (post_next batch s) = Success"
  by (simp add: post_next_def Let_def resetForm_def set_webhookStatus_def)

text \<open>
  C2. When the request succeeds, every field of the Form State has its initial value (empty
  name, shift \<open>manana\<close>, the three incomes and the daily summary absent, the cash rows
  20000, 10000 and 2000 with absent quantities, one blank expense row), the batch of the
  request stands in front of the previous History in its own order, and \<^verbatim>\<open>resetForm\<close>
  changes neither the History nor the status nor the error message.
\<close>

theorem submit_success:
  "form_of (post_next batch s) =
     ([], manana, None, None, None, None,
      [Row \<lparr>denomination = Val (Finite 20000), quantity = Null\<rparr>,
       Row \<lparr>denomination = Val (Finite 10000), quantity = Null\<rparr>,
       Row \<lparr>denomination = Val (Finite 2000), quantity = Null\<rparr>],
      [Row \<lparr>detail = Val [], amount = Null\<rparr>])
   \<and> form_of (post_next batch s) = form_of initial_state
   \<and> logHistory (post_next batch s) = batch @ logHistory s
   \<and> webhookStatus (post_next batch s) = Success
   \<and> logHistory (resetForm s) = logHistory s
   \<and> webhookStatus (resetForm s) = webhookStatus s
   \<and> webhookError (resetForm s) = webhookError s
   \<and> (k < length (inflight w) \<longrightarrow>
        (\<exists>w'. step (Response k) w = Some w'
           \<and> form_of (app w') = form_of initial_state
           \<and> logHistory (app w') = (inflight w ! k) @ logHistory (app w)))
   \<and> (snd (submitForm now (app w)) = Request batch \<longrightarrow>
        (\<exists>w'. run [Submit now, Response (length (inflight w))] w = Some w'
           \<and> form_of (app w') = form_of initial_state
           \<and> logHistory (app w') = batch @ logHistory (app w)
           \<and> webhookStatus (app w') = Success
           \<and> inflight w' = inflight w
           \<and> timers w' = timers w @ [auto_idle_delay]))"
proof (intro conjI impI)
  show "form_of (post_next batch s) =
     ([], manana, None, None, None, None,
      [Row \<lparr>denomination = Val (Finite 20000), quantity = Null\<rparr>,
       Row \<lparr>denomination = Val (Finite 10000), quantity = Null\<rparr>,
       Row \<lparr>denomination = Val (Finite 2000), quantity = Null\<rparr>],
      [Row \<lparr>detail = Val [], amount = Null\<rparr>])"
    by (simp add: form_of_post_next)
       (simp add: form_of_def initial_state_def DEFAULT_CASH_ENTRIES_def blank_expense_def)
  show "form_of (post_next batch s) = form_of initial_state"
    by (rule form_of_post_next)
  show "logHistory (post_next batch s) = batch @ logHistory s"
    by (rule logHistory_post_next)
  show "webhookStatus (post_next batch s) = Success"
    by (rule webhookStatus_post_next)
  show "logHistory (resetForm s) = logHistory s"
    by (simp add: resetForm_def)
  show "webhookStatus (resetForm s) = webhookStatus s"
    by (simp add: resetForm_def)
  show "webhookError (resetForm s) = webhookError s"
    by (simp add: resetForm_def)
  show "\<exists>w'. step (Response k) w = Some w'
           \<and> form_of (app w') = form_of initial_state
           \<and> logHistory (app w') = (inflight w ! k) @ logHistory (app w)"
    if "k < length (inflight w)"
    using that by (simp add: form_of_post_next logHistory_post_next)
  show "\<exists>w'. run [Submit now, Response (length (inflight w))] w = Some w'
           \<and> form_of (app w') = form_of initial_state
           \<and> logHistory (app w') = batch @ logHistory (app w)
           \<and> webhookStatus (app w') = Success
           \<and> inflight w' = inflight w
           \<and> timers w' = timers w @ [auto_idle_delay]"
    if r: "snd (submitForm now (app w)) = Request batch"
  proof -
    obtain s1 where so: "submitForm now (app w) = (s1, Request batch)"
      using r by (cases "submitForm now (app w)") simp
    note f = submitForm_Request(2) [OF so]
    show ?thesis
      by (simp add: so issue_def drop_nth_def form_of_post_next logHistory_post_next
          webhookStatus_post_next f)
  qed
qed

theorem submit_success_witness:
  "map_option (logHistory \<circ> app)
        (run [Submit ''t'', Response 0]
           (initial_world\<lparr>app := initial_state\<lparr>closerName := ''Ana'',
              firstDataIncome := Some (Finite 100)\<rparr>\<rparr>))
     = Some [\<lparr>day = ''t'', log_closerName = ''Ana'', log_shift = manana,
               accountingImputation = ''Ventas con Tarjeta'',
               accountEntry = ''Ingreso: First Data'', log_amount = Finite 100\<rparr>]
   \<and> map_option (form_of \<circ> app)
        (run [Submit ''t'', Response 0]
           (initial_world\<lparr>app := initial_state\<lparr>closerName := ''Ana'',
              firstDataIncome := Some (Finite 100)\<rparr>\<rparr>))
     = Some (form_of initial_state)
   \<and> map_option timers
        (run [Submit ''t'', Response 0]
           (initial_world\<lparr>app := initial_state\<lparr>closerName := ''Ana'',
              firstDataIncome := Some (Finite 100)\<rparr>\<rparr>))
     = Some [5000]"
proof -
  let ?s = "initial_state\<lparr>closerName := ''Ana'', firstDataIncome := Some (Finite 100)\<rparr>"
  let ?w = "initial_world\<lparr>app := ?s\<rparr>"
  let ?b = "[\<lparr>day = ''t'', log_closerName = ''Ana'', log_shift = manana,
               accountingImputation = ''Ventas con Tarjeta'',
               accountEntry = ''Ingreso: First Data'', log_amount = Finite 100\<rparr>]"
  have n: "newLogEntries ''t'' ?s = Some ?b"
    by (simp add: newLogEntries_def initial_state_def cashSubtotal_def expensesSubtotal_def
        DEFAULT_CASH_ENTRIES_def blank_expense_def push_expense_def number_eval)
  have v: "closerName ?s \<noteq> []" "shift ?s \<noteq> []"
    by (simp_all add: initial_state_def manana_def)
  have r: "snd (submitForm ''t'' (app ?w)) = Request ?b"
    by (simp add: submitForm_valid [OF v] n)
  have h: "logHistory (app ?w) = []" "inflight ?w = []" "timers ?w = []"
      "logHistory initial_state = []"
    by (simp_all add: initial_world_def initial_state_def)
  from submit_success [where w = ?w and now = "''t''" and batch = ?b] r
  obtain w' where "run [Submit ''t'', Response (length (inflight ?w))] ?w = Some w'"
     "form_of (app w') = form_of initial_state"
     "logHistory (app w') = ?b @ logHistory (app ?w)"
     "timers w' = timers ?w @ [auto_idle_delay]"
    by blast
  then show ?thesis
    by (simp add: h auto_idle_delay_def)
qed

section \<open>The status machine\<close>

lemma submitForm_log:
  assumes "submitForm now s = (s', out)"
  shows "(out = NoRequest \<and> webhookStatus s' = Error
           \<and> (statusLog s' = statusLog s @ [(SubmitStart, webhookStatus s, Sending),
                                              (SubmitInvalid, Sending, Error)]
              \<or> statusLog s' = statusLog s @ [(SubmitStart, webhookStatus s, Sending),
                                              (SubmitEmpty, Sending, Error)]))
       \<or> (out \<noteq> NoRequest \<and> webhookStatus s' = Sending
           \<and> statusLog s' = statusLog s @ [(SubmitStart, webhookStatus s, Sending)])"
proof (cases "closerName s = [] \<or> shift s = []")
  case True
  with assms show ?thesis
    by (auto simp: submitForm_invalid)
next
  case False
  then have v: "closerName s \<noteq> []" "shift s \<noteq> []" by simp_all
  show ?thesis
    using assms
    by (auto simp: submitForm_valid [OF v] split: option.splits if_splits)
qed

lemma handlers_frame:
  "webhookStatus (onNameKeyup e s) = webhookStatus s \<and> statusLog (onNameKeyup e s) = statusLog s"
  "webhookStatus (onShiftChange e s) = webhookStatus s \<and> statusLog (onShiftChange e s) = statusLog s"
  "webhookStatus (onFirstDataKeyup e s) = webhookStatus s \<and> statusLog (onFirstDataKeyup e s) = statusLog s"
  "webhookStatus (onPedidosYaKeyup e s) = webhookStatus s \<and> statusLog (onPedidosYaKeyup e s) = statusLog s"
  "webhookStatus (onMercadoPagoKeyup e s) = webhookStatus s \<and> statusLog (onMercadoPagoKeyup e s) = statusLog s"
  "webhookStatus (onDailySummaryKeyup e s) = webhookStatus s \<and> statusLog (onDailySummaryKeyup e s) = statusLog s"
  "webhookStatus (onCashEntryKeyup i f e s) = webhookStatus s \<and> statusLog (onCashEntryKeyup i f e s) = statusLog s"
  "webhookStatus (onExpenseDetailKeyup i e s) = webhookStatus s \<and> statusLog (onExpenseDetailKeyup i e s) = statusLog s"
  "webhookStatus (onExpenseAmountKeyup i e s) = webhookStatus s \<and> statusLog (onExpenseAmountKeyup i e s) = statusLog s"
  "webhookStatus (addCashEntry s) = webhookStatus s \<and> statusLog (addCashEntry s) = statusLog s"
  "webhookStatus (removeCashEntry i s) = webhookStatus s \<and> statusLog (removeCashEntry i s) = statusLog s"
  "webhookStatus (addExpense s) = webhookStatus s \<and> statusLog (addExpense s) = statusLog s"
  "webhookStatus (removeExpense i s) = webhookStatus s \<and> statusLog (removeExpense i s) = statusLog s"
  by (simp_all add: onNameKeyup_def onShiftChange_def onFirstDataKeyup_def onPedidosYaKeyup_def
      onMercadoPagoKeyup_def onDailySummaryKeyup_def onCashEntryKeyup_def
      onExpenseDetailKeyup_def onExpenseAmountKeyup_def addCashEntry_def removeCashEntry_def
      addExpense_def removeExpense_def Let_def)

lemma callbacks_log:
  "webhookStatus (post_next b s) = Success"
  "statusLog (post_next b s) = statusLog s @ [(PostNext, webhookStatus s, Success)]"
  "webhookStatus (post_error c s) = Error"
  "statusLog (post_error c s) = statusLog s @ [(PostError, webhookStatus s, Error)]"
  "webhookStatus (auto_idle s) = Idle"
  "statusLog (auto_idle s) = statusLog s @ [(AutoIdle, webhookStatus s, Idle)]"
  by (simp_all add: post_next_def post_error_def auto_idle_def resetForm_def
      set_webhookStatus_def set_webhookError_def Let_def)

text \<open>What one step adds to the log: entries written by the places the action runs.\<close>

lemma step_log:
  assumes "step a w = Some w'"
  shows "\<exists>ls. statusLog (app w') = statusLog (app w) @ ls
          \<and> (\<forall>t \<in> set ls. made_by a (fst t))
          \<and> chained (webhookStatus (app w)) ls
          \<and> last_status (webhookStatus (app w)) ls = webhookStatus (app w')"
proof (cases a)
  case (Submit now)
  obtain s' out where so: "submitForm now (app w) = (s', out)"
    by (cases "submitForm now (app w)")
  with assms Submit have w': "app w' = s'" by auto
  from submitForm_log [OF so] show ?thesis
    by (auto simp: w' Submit)
next
  case (Response k)
  with assms show ?thesis
    by (auto simp: callbacks_log split: if_splits)
next
  case (Failure k code)
  with assms show ?thesis
    by (auto simp: callbacks_log split: if_splits)
next
  case Timeout
  with assms show ?thesis
    by (auto simp: callbacks_log split: list.splits)
qed (use assms in \<open>auto simp: handlers_frame\<close>)

lemma chained_append:
  "chained v (xs @ ys) = (chained v xs \<and> chained (last_status v xs) ys)"
  by (induction v xs rule: chained.induct) auto

lemma last_status_append:
  "last_status v (xs @ ys) = last_status (last_status v xs) ys"
  by (induction v xs rule: last_status.induct) auto

lemma step_faithful:
  assumes "step a w = Some w'" "faithful (app w)"
  shows "faithful (app w')"
proof -
  from step_log [OF assms(1)] obtain ls where
    "statusLog (app w') = statusLog (app w) @ ls"
    "chained (webhookStatus (app w)) ls"
    "last_status (webhookStatus (app w)) ls = webhookStatus (app w')"
    by blast
  with assms(2) show ?thesis
    by (simp add: faithful_def chained_append last_status_append)
qed

lemma guarded_step:
  assumes g: "guarded a w" and st: "step a w = Some w'"
    and se: "settled w" and li: "list_all listed (statusLog (app w))"
  shows "settled w' \<and> list_all listed (statusLog (app w'))"
proof (cases a)
  case (Submit now)
  obtain s' out where so: "submitForm now (app w) = (s', out)"
    by (cases "submitForm now (app w)")
  with st Submit have w': "w' = w\<lparr>app := s', inflight := issue out (inflight w)\<rparr>" by auto
  from g Submit have ie: "webhookStatus (app w) = Idle \<or> webhookStatus (app w) = Error"
    by simp
  with se have q: "inflight w = []" "timers w = []"
    by (auto simp: settled_def)
  from submitForm_log [OF so] ie li q show ?thesis
    by (cases out) (auto simp: w' settled_def issue_def)
next
  case (Response k)
  with st have k: "k < length (inflight w)" by (auto split: if_splits)
  with se have q: "webhookStatus (app w) = Sending" "length (inflight w) = 1" "timers w = []"
    by (auto simp: settled_def)
  from st Response k q li show ?thesis
    by (auto simp: settled_def callbacks_log drop_nth_def auto_idle_delay_def)
next
  case (Failure k code)
  with st have k: "k < length (inflight w)" by (auto split: if_splits)
  with se have q: "webhookStatus (app w) = Sending" "length (inflight w) = 1" "timers w = []"
    by (auto simp: settled_def)
  from st Failure k q li show ?thesis
    by (auto simp: settled_def callbacks_log drop_nth_def)
next
  case Timeout
  with st obtain d ds where t: "timers w = d # ds" by (auto split: list.splits)
  with se have q: "webhookStatus (app w) = Success" "ds = []" "inflight w = []"
    by (auto simp: settled_def)
  from st Timeout t q li show ?thesis
    by (auto simp: settled_def callbacks_log)
qed (use st se li in \<open>auto simp: settled_def handlers_frame\<close>)

lemma run_guarded_invariant:
  assumes "run_guarded as w = Some w'"
    and "settled w" and "list_all listed (statusLog (app w))" and "faithful (app w)"
  shows "settled w' \<and> list_all listed (statusLog (app w')) \<and> faithful (app w')"
  using assms
proof (induction as arbitrary: w)
  case Nil
  then show ?case by simp
next
  case (Cons a as)
  from Cons.prems(1) obtain w1 where g: "guarded a w" and s: "step a w = Some w1"
    and r: "run_guarded as w1 = Some w'"
    by (auto split: if_splits option.splits)
  from guarded_step [OF g s Cons.prems(2,3)] step_faithful [OF s Cons.prems(4)]
  show ?case
    using Cons.IH [OF r] by blast
qed

lemma initial_world_invariant:
  "settled initial_world" "list_all listed (statusLog (app initial_world))"
  "faithful (app initial_world)"
  by (simp_all add: initial_world_def initial_state_def settled_def faithful_def)

lemma listed_from_Error: "listed (pl, Error, b) \<Longrightarrow> pl = SubmitStart \<and> b = Sending"
  by (cases pl; cases b) simp_all

text \<open>
  C5, with the guard. In every execution from the initial world in which a submit action is
  taken only while the status is \<open>Idle\<close> or \<open>Error\<close>, every change of the status is one
  of: \<open>Idle\<close> to \<open>Sending\<close> or \<open>Error\<close> to \<open>Sending\<close> by the first statement of
  \<^verbatim>\<open>submitForm\<close>; \<open>Sending\<close> to \<open>Error\<close> by its validation branch, its empty-batch branch
  or the error callback; \<open>Sending\<close> to \<open>Success\<close> by the success callback; \<open>Success\<close> to
  \<open>Idle\<close> by the timer, which was set with the delay of 5000 ms. The log is the whole
  history of the status, so from \<open>Error\<close> the status changes only by a submit action. Each
  entry is written by the action that runs its place: a submit action, the completion of a
  request, or the timer.
\<close>

theorem guarded_transitions:
  assumes "run_guarded as initial_world = Some w"
  shows "list_all listed (statusLog (app w))
    \<and> chained Idle (statusLog (app w))
    \<and> last_status Idle (statusLog (app w)) = webhookStatus (app w)
    \<and> (\<forall>t \<in> set (statusLog (app w)). fst (snd t) = Error \<longrightarrow> fst t = SubmitStart)
    \<and> (\<forall>d \<in> set (timers w). d = 5000)
    \<and> (\<forall>a w'. step a w = Some w' \<longrightarrow>
          (\<exists>ls. statusLog (app w') = statusLog (app w) @ ls
             \<and> (\<forall>t \<in> set ls. made_by a (fst t))))"
proof -
  from run_guarded_invariant [OF assms initial_world_invariant]
  have i: "settled w" "list_all listed (statusLog (app w))" "faithful (app w)"
    by simp_all
  have e: "\<forall>t \<in> set (statusLog (app w)). fst (snd t) = Error \<longrightarrow> fst t = SubmitStart"
  proof (intro ballI impI)
    fix t assume t: "t \<in> set (statusLog (app w))" and f: "fst (snd t) = Error"
    obtain pl a b where tt: "t = (pl, a, b)" by (cases t)
    from i(2) t have "listed t" by (simp add: list_all_iff)
    with tt f show "fst t = SubmitStart"
      by (auto dest: listed_from_Error)
  qed
  have d: "\<forall>d \<in> set (timers w). d = 5000"
    using i(1) by (cases "timers w") (auto simp: settled_def)
  have s: "\<forall>a w'. step a w = Some w' \<longrightarrow>
          (\<exists>ls. statusLog (app w') = statusLog (app w) @ ls
             \<and> (\<forall>t \<in> set ls. made_by a (fst t)))"
    using step_log by blast
  from i e d s show ?thesis
    by (simp add: faithful_def)
qed

text \<open>The definitions that evaluate a run on concrete actions.\<close>

lemmas eval_defs =
  initial_world_def initial_state_def DEFAULT_CASH_ENTRIES_def blank_expense_def manana_def
  onNameKeyup_def onFirstDataKeyup_def getStringValue_def getNumberValue_def
  submitForm_def newLogEntries_def cashSubtotal_def expensesSubtotal_def difference_def
  absoluteTotal_def totalIncome_def digitalIncomeSubtotal_def push_expense_def
  set_webhookStatus_def set_webhookError_def issue_def post_next_def post_error_def
  auto_idle_def resetForm_def drop_nth_def auto_idle_delay_def Let_def number_eval

text \<open>
  C5 as stated, for every execution, does not hold. \<^verbatim>\<open>submitForm\<close> writes \<open>Sending\<close>
  whatever the status is, and the timer writes \<open>Idle\<close> whatever the status is: a submit
  action within the delay after a success takes the status from \<open>Success\<close> to \<open>Sending\<close>,
  and when it ends in \<open>Error\<close> the timer then takes the status from \<open>Error\<close> to \<open>Idle\<close>.
  A second submit action while the first request is pending leaves two requests, and the
  failure of one after the success of the other takes the status from \<open>Success\<close> to
  \<open>Error\<close>.
\<close>

theorem unguarded_transitions_counterexample:
  "map_option (statusLog \<circ> app)
     (run [NameKeyup \<lparr>target_value = ''Ana'', target_valueAsNumber = NaN\<rparr>,
           FirstDataKeyup \<lparr>target_value = ''100'', target_valueAsNumber = Finite 100\<rparr>,
           Submit ''t1'', Response 0, Submit ''t2'', Timeout] initial_world)
   = Some [(SubmitStart, Idle, Sending), (PostNext, Sending, Success),
           (SubmitStart, Success, Sending), (SubmitInvalid, Sending, Error),
           (AutoIdle, Error, Idle)]
   \<and> \<not> listed (SubmitStart, Success, Sending)
   \<and> \<not> listed (AutoIdle, Error, Idle)
   \<and> map_option (statusLog \<circ> app)
     (run [NameKeyup \<lparr>target_value = ''Ana'', target_valueAsNumber = NaN\<rparr>,
           FirstDataKeyup \<lparr>target_value = ''100'', target_valueAsNumber = Finite 100\<rparr>,
           Submit ''t1'', Submit ''t2'', Response 0, Failure 0 500] initial_world)
   = Some [(SubmitStart, Idle, Sending), (SubmitStart, Sending, Sending),
           (PostNext, Sending, Success), (PostError, Success, Error)]
   \<and> \<not> listed (PostError, Success, Error)"
  by (simp add: eval_defs)

theorem guarded_transitions_witness:
  "run_guarded [NameKeyup \<lparr>target_value = ''Ana'', target_valueAsNumber = NaN\<rparr>,
           FirstDataKeyup \<lparr>target_value = ''100'', target_valueAsNumber = Finite 100\<rparr>,
           Submit ''t1'', Response 0, Timeout, Submit ''t2''] initial_world
   = Some \<lparr>app = initial_state\<lparr>webhookStatus := Error, webhookError := Some msg_validation,
              logHistory := [\<lparr>day = ''t1'', log_closerName = ''Ana'', log_shift = manana,
                               accountingImputation = ''Ventas con Tarjeta'',
                               accountEntry = ''Ingreso: First Data'',
                               log_amount = Finite 100\<rparr>],
              statusLog := [(SubmitStart, Idle, Sending), (PostNext, Sending, Success),
                            (AutoIdle, Success, Idle), (SubmitStart, Idle, Sending),
                            (SubmitInvalid, Sending, Error)],
              errorLog := [None, None, Some msg_validation]\<rparr>,
            inflight = [], timers = []\<rparr>
   \<and> list_all listed [(SubmitStart, Idle, Sending), (PostNext, Sending, Success),
                            (AutoIdle, Success, Idle), (SubmitStart, Idle, Sending),
                            (SubmitInvalid, Sending, Error)]"
proof -
  let ?as = "[NameKeyup \<lparr>target_value = ''Ana'', target_valueAsNumber = NaN\<rparr>,
           FirstDataKeyup \<lparr>target_value = ''100'', target_valueAsNumber = Finite 100\<rparr>,
           Submit ''t1'', Response 0, Timeout, Submit ''t2'']"
  let ?w = "\<lparr>app = initial_state\<lparr>webhookStatus := Error, webhookError := Some msg_validation,
              logHistory := [\<lparr>day = ''t1'', log_closerName = ''Ana'', log_shift = manana,
                               accountingImputation = ''Ventas con Tarjeta'',
                               accountEntry = ''Ingreso: First Data'',
                               log_amount = Finite 100\<rparr>],
              statusLog := [(SubmitStart, Idle, Sending), (PostNext, Sending, Success),
                            (AutoIdle, Success, Idle), (SubmitStart, Idle, Sending),
                            (SubmitInvalid, Sending, Error)],
              errorLog := [None, None, Some msg_validation]\<rparr>,
            inflight = [], timers = []\<rparr>"
  have r: "run_guarded ?as initial_world = Some ?w"
    by (simp add: eval_defs)
  from guarded_transitions [OF r] have "list_all listed (statusLog (app ?w))"
    by blast
  with r show ?thesis by simp
qed


section \<open>The row handlers\<close>

lemma onCashEntryKeyup_row_update:
  "cashEntries (onCashEntryKeyup i f e s) =
     row_update (with_cash_field f (of_nullable (getNumberValue e))) no_cash_props i (cashEntries s)"
  by (simp add: onCashEntryKeyup_def row_update_def Let_def)

lemma onExpenseDetailKeyup_row_update:
  "expenses (onExpenseDetailKeyup i e s) =
     row_update (\<lambda>r. r\<lparr>detail := Val (getStringValue e)\<rparr>) no_expense_props i (expenses s)"
  by (simp add: onExpenseDetailKeyup_def row_update_def Let_def)

lemma onExpenseAmountKeyup_row_update:
  "expenses (onExpenseAmountKeyup i e s) =
     row_update (\<lambda>r. r\<lparr>amount := of_nullable (getNumberValue e)\<rparr>) no_expense_props i (expenses s)"
  by (simp add: onExpenseAmountKeyup_def row_update_def Let_def)

lemma onCashEntryKeyup_store_row_update:
  "onCashEntryKeyup_store i f e sig =
     row_update_store (with_cash_field f (of_nullable (getNumberValue e))) no_cash_props i sig"
  by (simp add: onCashEntryKeyup_store_def row_update_store_def Let_def)

lemma onExpenseDetailKeyup_store_row_update:
  "onExpenseDetailKeyup_store i e sig =
     row_update_store (\<lambda>r. r\<lparr>detail := Val (getStringValue e)\<rparr>) no_expense_props i sig"
  by (simp add: onExpenseDetailKeyup_store_def row_update_store_def Let_def)

lemma onExpenseAmountKeyup_store_row_update:
  "onExpenseAmountKeyup_store i e sig =
     row_update_store (\<lambda>r. r\<lparr>amount := of_nullable (getNumberValue e)\<rparr>) no_expense_props i sig"
  by (simp add: onExpenseAmountKeyup_store_def row_update_store_def Let_def)

text \<open>The list-level facts.\<close>

lemma length_spread [simp]: "length (spread xs) = length xs"
  by (simp add: spread_def)

lemma nth_spread: "j < length xs \<Longrightarrow> spread xs ! j = spread_slot (xs ! j)"
  by (simp add: spread_def)

lemma row_update_inside:
  assumes "0 \<le> i" "nat i < length xs"
  shows "row_update upd none i xs =
     (spread xs)[nat i := Row (upd (obj_spread none (js_get (spread xs) i)))]"
  using assms by (simp add: row_update_def js_set_def Let_def)

lemma row_update_negative:
  "i < 0 \<Longrightarrow> row_update upd none i xs = spread xs"
  by (simp add: row_update_def js_set_def Let_def)

lemma row_update_beyond:
  assumes "int (length xs) \<le> i" "i < 4294967295"
  shows "row_update upd none i xs =
     spread xs @ replicate (nat i - length xs) Hole @ [Row (upd none)]"
proof -
  from assms have "\<not> i < 0" "\<not> nat i < length xs" by linarith+
  with assms(2) show ?thesis
    by (simp add: row_update_def js_set_def js_get_def Let_def)
qed

lemma row_update_beyond_conj:
  "int (length xs) \<le> i \<and> i < 4294967295 \<Longrightarrow>
     row_update upd none i xs = spread xs @ replicate (nat i - length xs) Hole @ [Row (upd none)]"
  by (simp add: row_update_beyond)

lemma row_update_beyond_length:
  assumes "int (length xs) \<le> i \<and> i < 4294967295"
  shows "length (row_update upd none i xs) = nat i + 1"
proof -
  from assms have "length xs \<le> nat i" by linarith
  then show ?thesis
    by (simp add: row_update_beyond_conj [OF assms])
qed

lemma replicate_two: "replicate 2 x = [x, x]"
  by (simp add: numeral_2_eq_2)

lemma row_update_limit:
  assumes "int (length xs) \<le> i" "4294967295 \<le> i"
  shows "row_update upd none i xs = spread xs"
proof -
  from assms have "\<not> i < 0" "\<not> nat i < length xs" "\<not> i < 4294967295" by linarith+
  then show ?thesis
    by (simp add: row_update_def js_set_def js_get_def Let_def)
qed

lemma row_update_keeps_rows:
  assumes "j < length xs" "xs ! j = Row r" "i \<noteq> int j"
  shows "row_update upd none i xs ! j = Row r"
proof -
  have s: "spread xs ! j = Row r"
    using assms by (simp add: nth_spread)
  consider "i < 0" | "0 \<le> i" "nat i < length xs"
    | "int (length xs) \<le> i" "i < 4294967295" | "int (length xs) \<le> i" "4294967295 \<le> i"
    by linarith
  then show ?thesis
  proof cases
    case 1
    then show ?thesis by (simp add: row_update_negative s)
  next
    case 2
    with assms have "nat i \<noteq> j" by linarith
    with 2 assms show ?thesis by (simp add: row_update_inside s)
  next
    case 3
    with assms show ?thesis by (simp add: row_update_beyond nth_append s)
  next
    case 4
    then show ?thesis by (simp add: row_update_limit s)
  qed
qed

text \<open>The store-level facts.\<close>

lemma row_update_store_result:
  assumes "arrays st a = Some xs"
  shows "row_update_store upd none i (a, st) =
     (next_ref st,
      st\<lparr>arrays := (arrays st)(next_ref st \<mapsto>
            js_set (spread xs) i (Suc (next_ref st))),
         objects := (objects st)(Suc (next_ref st) \<mapsto>
            upd (obj_spread none
                   (case js_get (spread xs) i of None \<Rightarrow> None | Some r \<Rightarrow> objects st r))),
         next_ref := Suc (Suc (next_ref st))\<rparr>)"
  using assms
  by (simp add: row_update_store_def st_spread_def st_new_def st_write_def st_read_def Let_def
      cong: option.case_cong)

lemma wf_signal_iff:
  "wf_signal (a, st) =
     (\<exists>xs. arrays st a = Some xs
        \<and> (\<forall>r. Row r \<in> set xs \<longrightarrow> objects st r \<noteq> None)
        \<and> (\<forall>b. next_ref st \<le> b \<longrightarrow> arrays st b = None \<and> objects st b = None))"
  by (auto simp: wf_signal_def split: option.splits)

lemma map_deref_cong:
  assumes "\<And>r. Row r \<in> set xs \<Longrightarrow> objects st' r = objects st r"
  shows "map (deref st') xs = map (deref st) xs"
proof (rule map_cong [OF refl])
  fix x assume "x \<in> set xs"
  with assms show "deref st' x = deref st x"
    by (cases x) simp_all
qed

lemma deref_spread_slot: "deref st (spread_slot x) = spread_slot (deref st x)"
  by (cases x) simp_all

lemma map_deref_spread: "map (deref st) (spread xs) = spread (map (deref st) xs)"
  by (simp add: spread_def deref_spread_slot)

lemma set_spread_Row: "Row r \<in> set (spread xs) \<Longrightarrow> Row r \<in> set xs"
proof -
  assume "Row r \<in> set (spread xs)"
  then obtain x where x: "x \<in> set xs" "spread_slot x = Row r"
    by (auto simp: spread_def)
  show ?thesis
  proof (cases x)
    case (Row r')
    with x show ?thesis by simp
  qed (use x in simp_all)
qed

lemma js_get_deref:
  assumes "\<And>r. Row r \<in> set xs \<Longrightarrow> objects st r \<noteq> None"
  shows "(case js_get xs i of None \<Rightarrow> None | Some r \<Rightarrow> objects st r)
       = js_get (map (deref st) xs) i"
proof (cases "0 \<le> i \<and> nat i < length xs")
  case True
  show ?thesis
  proof (cases "xs ! nat i")
    case (Row r)
    with True have "Row r \<in> set xs" by (metis nth_mem)
    with assms obtain obj where "objects st r = Some obj" by auto
    with True Row show ?thesis by (simp add: js_get_def)
  qed (use True in \<open>simp_all add: js_get_def\<close>)
next
  case False
  then show ?thesis by (auto simp: js_get_def)
qed

lemma map_deref_js_set:
  assumes "objects st o' = Some obj"
  shows "map (deref st) (js_set xs i o') = js_set (map (deref st) xs) i obj"
  using assms by (simp add: js_set_def map_update)

lemma row_update_store_view:
  assumes wf: "wf_signal (a, st)"
    and res: "row_update_store upd none i (a, st) = (a', st')"
  shows "view st' a' = row_update upd none i (view st a)"
    and "\<forall>b < next_ref st. arrays st' b = arrays st b \<and> objects st' b = objects st b"
    and "view st' a = view st a"
    and "a' \<noteq> a"
    and "wf_signal (a', st')"
proof -
  from wf obtain xs where xs: "arrays st a = Some xs"
    and objs: "\<And>r. Row r \<in> set xs \<Longrightarrow> objects st r \<noteq> None"
    and free: "\<And>b. next_ref st \<le> b \<Longrightarrow> arrays st b = None \<and> objects st b = None"
    unfolding wf_signal_iff by blast
  let ?n = "next_ref st"
  let ?obj = "upd (obj_spread none
                   (case js_get (spread xs) i of None \<Rightarrow> None | Some r \<Rightarrow> objects st r))"
  from res have a': "a' = ?n"
    and st': "st' = st\<lparr>arrays := (arrays st)(?n \<mapsto> js_set (spread xs) i (Suc ?n)),
         objects := (objects st)(Suc ?n \<mapsto> ?obj),
         next_ref := Suc (Suc ?n)\<rparr>"
    by (auto simp: row_update_store_result [OF xs])
  have a_lt: "a < ?n"
    using free [of a] xs by (cases "a < ?n") auto
  have r_lt: "r < ?n" if "Row r \<in> set xs" for r
    using free [of r] objs [OF that] by (cases "r < ?n") auto
  show "a' \<noteq> a" using a_lt a' by simp
  show fr: "\<forall>b < next_ref st. arrays st' b = arrays st b \<and> objects st' b = objects st b"
    by (simp add: st')
  have same: "objects st' r = objects st r" if "Row r \<in> set xs" for r
    using r_lt [OF that] by (simp add: st')
  show "view st' a = view st a"
    using a_lt by (simp add: view_def st' xs map_deref_cong [OF same, simplified st'])
  have sp: "map (deref st') (spread xs) = spread (map (deref st) xs)"
  proof -
    have "map (deref st') (spread xs) = map (deref st) (spread xs)"
      by (rule map_deref_cong) (rule same, erule set_spread_Row)
    then show ?thesis by (simp add: map_deref_spread)
  qed
  have objs_sp: "objects st r \<noteq> None" if "Row r \<in> set (spread xs)" for r
    using objs [OF set_spread_Row [OF that]] .
  have rd: "(case js_get (spread xs) i of None \<Rightarrow> None | Some r \<Rightarrow> objects st r)
       = js_get (spread (map (deref st) xs)) i"
    using js_get_deref [of "spread xs" st i, OF objs_sp] by (simp add: map_deref_spread)
  have new: "objects st' (Suc ?n) = Some ?obj"
    by (simp add: st')
  have "view st' a' = map (deref st') (js_set (spread xs) i (Suc ?n))"
    by (simp add: view_def a' st')
  also have "\<dots> = js_set (map (deref st') (spread xs)) i ?obj"
    by (rule map_deref_js_set [OF new])
  also have "\<dots> = row_update upd none i (map (deref st) xs)"
    by (simp add: sp rd row_update_def Let_def)
  finally show "view st' a' = row_update upd none i (view st a)"
    by (simp add: view_def xs)
  show "wf_signal (a', st')"
  proof -
    have "objects st' r \<noteq> None" if "Row r \<in> set (js_set (spread xs) i (Suc ?n))" for r
    proof -
      from that have "r = Suc ?n \<or> Row r \<in> set (spread xs)"
        by (auto simp: js_set_def split: if_splits dest: set_update_subset_insert [THEN subsetD])
      then show ?thesis
        using objs_sp by (auto simp: st')
    qed
    moreover have "arrays st' b = None \<and> objects st' b = None" if "next_ref st' \<le> b" for b
      using that free [of b] by (simp add: st')
    ultimately show ?thesis
      unfolding wf_signal_iff by (simp add: a' st')
  qed
qed

lemma spread_rows [simp]: "spread (map Row rows) = map Row rows"
  by (simp add: spread_def)

lemma row_update_rows:
  assumes "0 \<le> i" "nat i < length rows"
  shows "row_update upd none i (map Row rows) = map Row (rows[nat i := upd (rows ! nat i)])"
  using assms by (simp add: row_update_inside js_get_def map_update)

lemma row_update_store_rows:
  assumes "wf_signal (a, st)" "view st a = map Row rows" "0 \<le> i" "nat i < length rows"
  shows "case row_update_store upd none i (a, st) of (a', st') \<Rightarrow>
           view st' a' = map Row (rows[nat i := upd (rows ! nat i)])
           \<and> view st' a = map Row rows \<and> a' \<noteq> a \<and> old_refs_unchanged st st'"
proof -
  obtain a' st' where r: "row_update_store upd none i (a, st) = (a', st')"
    by (cases "row_update_store upd none i (a, st)")
  note v = row_update_store_view [OF assms(1) r]
  show ?thesis
    using v(2,4) by (simp add: r v(1,3) assms(2) row_update_rows [OF assms(3,4)]
        old_refs_unchanged_def)
qed

text \<open>
  C9. For an index inside a list of rows, each row handler (cash denomination or quantity,
  expense detail, expense amount) makes a list that differs from the old one only in the
  updated field of the row at that index: the list is the old one with that row replaced
  by a copy in which the one field is set, so every other row and the other field of the
  row are as before. The handler writes into a new array and a new object only: the old
  array reference still shows the old list, and every array and object that existed before
  is as it was.
\<close>

theorem row_update_copy_on_write:
  "(wf_signal (a, st) \<and> view st a = map Row rows \<and> 0 \<le> i \<and> nat i < length rows \<longrightarrow>
      (case onCashEntryKeyup_store i f e (a, st) of (a', st') \<Rightarrow>
         view st' a' = map Row (rows[nat i :=
            with_cash_field f (of_nullable (getNumberValue e)) (rows ! nat i)])
         \<and> view st' a = map Row rows \<and> a' \<noteq> a \<and> old_refs_unchanged st st'))
   \<and> with_cash_field Denomination v r = r\<lparr>denomination := v\<rparr>
   \<and> with_cash_field Quantity v r = r\<lparr>quantity := v\<rparr>
   \<and> (wf_signal (b, su) \<and> view su b = map Row erows \<and> 0 \<le> i \<and> nat i < length erows \<longrightarrow>
      (case onExpenseDetailKeyup_store i e (b, su) of (b', su') \<Rightarrow>
         view su' b' = map Row (erows[nat i := (erows ! nat i)\<lparr>detail := Val (target_value e)\<rparr>])
         \<and> view su' b = map Row erows \<and> b' \<noteq> b \<and> old_refs_unchanged su su')
      \<and> (case onExpenseAmountKeyup_store i e (b, su) of (b', su') \<Rightarrow>
         view su' b' = map Row (erows[nat i :=
            (erows ! nat i)\<lparr>amount := of_nullable (getNumberValue e)\<rparr>])
         \<and> view su' b = map Row erows \<and> b' \<noteq> b \<and> old_refs_unchanged su su'))
   \<and> (cashEntries s = map Row rows \<and> 0 \<le> i \<and> nat i < length rows \<longrightarrow>
        cashEntries (onCashEntryKeyup i f e s) = map Row (rows[nat i :=
            with_cash_field f (of_nullable (getNumberValue e)) (rows ! nat i)])
        \<and> expenses (onCashEntryKeyup i f e s) = expenses s)
   \<and> (expenses s = map Row erows \<and> 0 \<le> i \<and> nat i < length erows \<longrightarrow>
        expenses (onExpenseDetailKeyup i e s) =
          map Row (erows[nat i := (erows ! nat i)\<lparr>detail := Val (target_value e)\<rparr>])
        \<and> expenses (onExpenseAmountKeyup i e s) =
          map Row (erows[nat i := (erows ! nat i)\<lparr>amount := of_nullable (getNumberValue e)\<rparr>])
        \<and> cashEntries (onExpenseDetailKeyup i e s) = cashEntries s
        \<and> cashEntries (onExpenseAmountKeyup i e s) = cashEntries s)"
proof (intro conjI impI)
  show "case onCashEntryKeyup_store i f e (a, st) of (a', st') \<Rightarrow>
         view st' a' = map Row (rows[nat i :=
            with_cash_field f (of_nullable (getNumberValue e)) (rows ! nat i)])
         \<and> view st' a = map Row rows \<and> a' \<noteq> a \<and> old_refs_unchanged st st'"
    if "wf_signal (a, st) \<and> view st a = map Row rows \<and> 0 \<le> i \<and> nat i < length rows"
    unfolding onCashEntryKeyup_store_row_update
    using that by (intro row_update_store_rows) simp_all
  show "with_cash_field Denomination v r = r\<lparr>denomination := v\<rparr>"
    by simp
  show "with_cash_field Quantity v r = r\<lparr>quantity := v\<rparr>"
    by simp
  show "case onExpenseDetailKeyup_store i e (b, su) of (b', su') \<Rightarrow>
         view su' b' = map Row (erows[nat i := (erows ! nat i)\<lparr>detail := Val (target_value e)\<rparr>])
         \<and> view su' b = map Row erows \<and> b' \<noteq> b \<and> old_refs_unchanged su su'"
    if h: "wf_signal (b, su) \<and> view su b = map Row erows \<and> 0 \<le> i \<and> nat i < length erows"
  proof -
    have "case row_update_store (\<lambda>r. r\<lparr>detail := Val (getStringValue e)\<rparr>) no_expense_props i (b, su)
          of (b', su') \<Rightarrow>
         view su' b' = map Row (erows[nat i := (erows ! nat i)\<lparr>detail := Val (getStringValue e)\<rparr>])
         \<and> view su' b = map Row erows \<and> b' \<noteq> b \<and> old_refs_unchanged su su'"
      using h by (intro row_update_store_rows) simp_all
    then show ?thesis
      by (simp add: onExpenseDetailKeyup_store_row_update getStringValue_def)
  qed
  show "case onExpenseAmountKeyup_store i e (b, su) of (b', su') \<Rightarrow>
         view su' b' = map Row (erows[nat i :=
            (erows ! nat i)\<lparr>amount := of_nullable (getNumberValue e)\<rparr>])
         \<and> view su' b = map Row erows \<and> b' \<noteq> b \<and> old_refs_unchanged su su'"
    if h: "wf_signal (b, su) \<and> view su b = map Row erows \<and> 0 \<le> i \<and> nat i < length erows"
    unfolding onExpenseAmountKeyup_store_row_update
    using h by (intro row_update_store_rows) simp_all
  show "cashEntries (onCashEntryKeyup i f e s) = map Row (rows[nat i :=
            with_cash_field f (of_nullable (getNumberValue e)) (rows ! nat i)])"
    if "cashEntries s = map Row rows \<and> 0 \<le> i \<and> nat i < length rows"
    using that by (simp add: onCashEntryKeyup_row_update row_update_rows)
  show "expenses (onCashEntryKeyup i f e s) = expenses s"
    by (simp add: onCashEntryKeyup_def Let_def)
  show "expenses (onExpenseDetailKeyup i e s) =
          map Row (erows[nat i := (erows ! nat i)\<lparr>detail := Val (target_value e)\<rparr>])"
    if "expenses s = map Row erows \<and> 0 \<le> i \<and> nat i < length erows"
    using that by (simp add: onExpenseDetailKeyup_row_update row_update_rows getStringValue_def)
  show "expenses (onExpenseAmountKeyup i e s) =
          map Row (erows[nat i := (erows ! nat i)\<lparr>amount := of_nullable (getNumberValue e)\<rparr>])"
    if "expenses s = map Row erows \<and> 0 \<le> i \<and> nat i < length erows"
    using that by (simp add: onExpenseAmountKeyup_row_update row_update_rows)
  show "cashEntries (onExpenseDetailKeyup i e s) = cashEntries s"
    by (simp add: onExpenseDetailKeyup_def Let_def)
  show "cashEntries (onExpenseAmountKeyup i e s) = cashEntries s"
    by (simp add: onExpenseAmountKeyup_def Let_def)
qed

theorem row_update_copy_on_write_witness:
  "(case onCashEntryKeyup_store 1 Quantity
           \<lparr>target_value = ''4'', target_valueAsNumber = Finite 4\<rparr>
           (0, \<lparr>arrays = [0 \<mapsto> [Row 1, Row 2]],
                objects = [1 \<mapsto> \<lparr>denomination = Val (Finite 20000), quantity = Null\<rparr>,
                           2 \<mapsto> \<lparr>denomination = Val (Finite 10000), quantity = Null\<rparr>],
                next_ref = 3\<rparr>)
    of (a', st') \<Rightarrow>
      view st' a' = [Row \<lparr>denomination = Val (Finite 20000), quantity = Null\<rparr>,
                     Row \<lparr>denomination = Val (Finite 10000), quantity = Val (Finite 4)\<rparr>]
      \<and> view st' 0 = [Row \<lparr>denomination = Val (Finite 20000), quantity = Null\<rparr>,
                      Row \<lparr>denomination = Val (Finite 10000), quantity = Null\<rparr>]
      \<and> a' \<noteq> 0)
   \<and> (case onExpenseDetailKeyup_store 0
           \<lparr>target_value = ''ice'', target_valueAsNumber = NaN\<rparr>
           (0, \<lparr>arrays = [0 \<mapsto> [Row 1]],
                objects = [1 \<mapsto> \<lparr>detail = Val [], amount = Val (Finite 15)\<rparr>],
                next_ref = 2\<rparr>)
    of (b', su') \<Rightarrow>
      view su' b' = [Row \<lparr>detail = Val ''ice'', amount = Val (Finite 15)\<rparr>]
      \<and> view su' 0 = [Row \<lparr>detail = Val [], amount = Val (Finite 15)\<rparr>])
   \<and> cashEntries (onCashEntryKeyup 1 Denomination
         \<lparr>target_value = ''500'', target_valueAsNumber = Finite 500\<rparr> initial_state)
       = [Row \<lparr>denomination = Val (Finite 20000), quantity = Null\<rparr>,
          Row \<lparr>denomination = Val (Finite 500), quantity = Null\<rparr>,
          Row \<lparr>denomination = Val (Finite 2000), quantity = Null\<rparr>]"
proof -
  let ?e = "\<lparr>target_value = ''4'', target_valueAsNumber = Finite 4\<rparr>"
  let ?rows = "[\<lparr>denomination = Val (Finite 20000), quantity = Null\<rparr>,
                \<lparr>denomination = Val (Finite 10000), quantity = Null\<rparr>]"
  let ?st = "\<lparr>arrays = [0 \<mapsto> [Row 1, Row 2]],
                objects = [1 \<mapsto> \<lparr>denomination = Val (Finite 20000), quantity = Null\<rparr>,
                           2 \<mapsto> \<lparr>denomination = Val (Finite 10000), quantity = Null\<rparr>],
                next_ref = 3::nat\<rparr>"
  let ?d = "\<lparr>target_value = ''ice'', target_valueAsNumber = NaN\<rparr>"
  let ?erows = "[\<lparr>detail = Val [], amount = Val (Finite 15)\<rparr>]"
  let ?su = "\<lparr>arrays = [0 \<mapsto> [Row 1]],
                objects = [1 \<mapsto> \<lparr>detail = Val [], amount = Val (Finite 15)\<rparr>],
                next_ref = 2::nat\<rparr>"
  let ?k = "\<lparr>target_value = ''500'', target_valueAsNumber = Finite 500\<rparr>"
  let ?crows = "[\<lparr>denomination = Val (Finite 20000), quantity = Null\<rparr>,
                 \<lparr>denomination = Val (Finite 10000), quantity = Null\<rparr>,
                 \<lparr>denomination = Val (Finite 2000), quantity = Null\<rparr>]"
  have wf: "wf_signal (0, ?st)" "wf_signal (0, ?su)"
    by (auto simp: wf_signal_def)
  have v: "view ?st 0 = map Row ?rows" "view ?su 0 = map Row ?erows"
    by (simp_all add: view_def)
  have c: "cashEntries initial_state = map Row ?crows"
    by (simp add: initial_state_def DEFAULT_CASH_ENTRIES_def)
  have 1: "case onCashEntryKeyup_store 1 Quantity ?e (0, ?st) of (a', st') \<Rightarrow>
      view st' a' = map Row (?rows[nat 1 :=
            with_cash_field Quantity (of_nullable (getNumberValue ?e)) (?rows ! nat 1)])
      \<and> view st' 0 = map Row ?rows \<and> a' \<noteq> 0 \<and> old_refs_unchanged ?st st'"
    using row_update_copy_on_write [where a = 0 and st = ?st and rows = ?rows and i = 1
        and f = Quantity and e = ?e] wf(1) v(1)
    by simp
  have 2: "case onExpenseDetailKeyup_store 0 ?d (0, ?su) of (b', su') \<Rightarrow>
      view su' b' = map Row (?erows[nat 0 := (?erows ! nat 0)\<lparr>detail := Val (target_value ?d)\<rparr>])
      \<and> view su' 0 = map Row ?erows \<and> b' \<noteq> 0 \<and> old_refs_unchanged ?su su'"
    using row_update_copy_on_write [where b = 0 and su = ?su and erows = ?erows and i = 0
        and e = ?d] wf(2) v(2)
    by simp
  have 3: "cashEntries (onCashEntryKeyup 1 Denomination ?k initial_state) =
      map Row (?crows[nat 1 :=
            with_cash_field Denomination (of_nullable (getNumberValue ?k)) (?crows ! nat 1)])"
    using row_update_copy_on_write [where s = initial_state and rows = ?crows and i = 1
        and f = Denomination and e = ?k] c
    by simp
  from 1 2 3 show ?thesis
    by (auto simp: getNumberValue_def)
qed

text \<open>
  C10 as stated, for every index at or beyond the length, does not hold. An array index is
  at most \<open>2\<^sup>3\<^sup>2 - 2\<close>: the assignment \<^verbatim>\<open>newEntries[index] = ...\<close> with the index 4294967295
  sets an ordinary property of the array object and creates no element, so the list of the
  initial state keeps its three rows and no row is created.
\<close>

theorem row_update_outside_bounds_counterexample:
  "length (cashEntries initial_state) = 3
   \<and> cashEntries (onCashEntryKeyup 4294967295 Quantity
        \<lparr>target_value = ''7'', target_valueAsNumber = Finite 7\<rparr> initial_state)
     = [Row \<lparr>denomination = Val (Finite 20000), quantity = Null\<rparr>,
        Row \<lparr>denomination = Val (Finite 10000), quantity = Null\<rparr>,
        Row \<lparr>denomination = Val (Finite 2000), quantity = Null\<rparr>]
   \<and> expenses (onExpenseDetailKeyup 4294967295
        \<lparr>target_value = ''ice'', target_valueAsNumber = NaN\<rparr> initial_state)
     = [Row \<lparr>detail = Val [], amount = Null\<rparr>]
   \<and> expenses (onExpenseAmountKeyup 4294967295
        \<lparr>target_value = ''15'', target_valueAsNumber = Finite 15\<rparr> initial_state)
     = [Row \<lparr>detail = Val [], amount = Null\<rparr>]"
  by (simp add: onCashEntryKeyup_def onExpenseDetailKeyup_def onExpenseAmountKeyup_def
      initial_state_def DEFAULT_CASH_ENTRIES_def blank_expense_def spread_def js_set_def
      js_get_def getNumberValue_def getStringValue_def Let_def)

text \<open>
  C10, with the bound of an array index. For an index outside the list the row handlers
  (\<^verbatim>\<open>onCashEntryKeyup\<close>, \<^verbatim>\<open>onExpenseDetailKeyup\<close>, \<^verbatim>\<open>onExpenseAmountKeyup\<close>) return normally
  and every existing row stays as it is. For an index at or past the length and below
  \<open>2\<^sup>3\<^sup>2 - 1\<close> the list grows to the index plus one: the new last element is a row that has
  the updated field only, and the positions between the old end and the index are holes.
  For a negative index, and for an index from \<open>2\<^sup>3\<^sup>2 - 1\<close> on, the list keeps its length and
  no row is created.
\<close>

theorem row_update_outside_bounds:
  "(int (length (cashEntries s)) \<le> i \<and> i < 4294967295 \<longrightarrow>
      cashEntries (onCashEntryKeyup i f e s) =
        spread (cashEntries s) @ replicate (nat i - length (cashEntries s)) Hole
          @ [Row (with_cash_field f (of_nullable (getNumberValue e))
                    \<lparr>denomination = Undefined, quantity = Undefined\<rparr>)]
      \<and> length (cashEntries (onCashEntryKeyup i f e s)) = nat i + 1)
   \<and> (i < 0 \<or> int (length (cashEntries s)) \<le> i \<and> 4294967295 \<le> i \<longrightarrow>
        cashEntries (onCashEntryKeyup i f e s) = spread (cashEntries s))
   \<and> (i < 0 \<or> int (length (cashEntries s)) \<le> i \<longrightarrow>
        (\<forall>j r. j < length (cashEntries s) \<and> cashEntries s ! j = Row r \<longrightarrow>
           cashEntries (onCashEntryKeyup i f e s) ! j = Row r))
   \<and> (int (length (expenses s)) \<le> i \<and> i < 4294967295 \<longrightarrow>
      expenses (onExpenseDetailKeyup i e s) =
        spread (expenses s) @ replicate (nat i - length (expenses s)) Hole
          @ [Row \<lparr>detail = Val (target_value e), amount = Undefined\<rparr>]
      \<and> expenses (onExpenseAmountKeyup i e s) =
        spread (expenses s) @ replicate (nat i - length (expenses s)) Hole
          @ [Row \<lparr>detail = Undefined, amount = of_nullable (getNumberValue e)\<rparr>]
      \<and> length (expenses (onExpenseDetailKeyup i e s)) = nat i + 1
      \<and> length (expenses (onExpenseAmountKeyup i e s)) = nat i + 1)
   \<and> (i < 0 \<or> int (length (expenses s)) \<le> i \<and> 4294967295 \<le> i \<longrightarrow>
        expenses (onExpenseDetailKeyup i e s) = spread (expenses s)
        \<and> expenses (onExpenseAmountKeyup i e s) = spread (expenses s))
   \<and> (i < 0 \<or> int (length (expenses s)) \<le> i \<longrightarrow>
        (\<forall>j r. j < length (expenses s) \<and> expenses s ! j = Row r \<longrightarrow>
           expenses (onExpenseDetailKeyup i e s) ! j = Row r
           \<and> expenses (onExpenseAmountKeyup i e s) ! j = Row r))"
proof (intro conjI impI allI)
  have out: "row_update upd none i xs = spread xs"
    if "i < 0 \<or> int (length xs) \<le> i \<and> 4294967295 \<le> i" for upd none and xs :: "'r slot list"
    using that by (auto simp: row_update_negative row_update_limit)
  show "cashEntries (onCashEntryKeyup i f e s) =
        spread (cashEntries s) @ replicate (nat i - length (cashEntries s)) Hole
          @ [Row (with_cash_field f (of_nullable (getNumberValue e))
                    \<lparr>denomination = Undefined, quantity = Undefined\<rparr>)]"
    if "int (length (cashEntries s)) \<le> i \<and> i < 4294967295"
    using that by (simp add: onCashEntryKeyup_row_update row_update_beyond_conj no_cash_props_def)
  show "length (cashEntries (onCashEntryKeyup i f e s)) = nat i + 1"
    if "int (length (cashEntries s)) \<le> i \<and> i < 4294967295"
    using that by (simp add: onCashEntryKeyup_row_update row_update_beyond_length)
  show "cashEntries (onCashEntryKeyup i f e s) = spread (cashEntries s)"
    if "i < 0 \<or> int (length (cashEntries s)) \<le> i \<and> 4294967295 \<le> i"
    using out [OF that] by (simp add: onCashEntryKeyup_row_update)
  show "cashEntries (onCashEntryKeyup i f e s) ! j = Row r"
    if "i < 0 \<or> int (length (cashEntries s)) \<le> i"
      and "j < length (cashEntries s) \<and> cashEntries s ! j = Row r" for j r
  proof -
    from that have "i \<noteq> int j" by linarith
    with that(2) show ?thesis
      by (simp add: onCashEntryKeyup_row_update row_update_keeps_rows)
  qed
  show "expenses (onExpenseDetailKeyup i e s) =
        spread (expenses s) @ replicate (nat i - length (expenses s)) Hole
          @ [Row \<lparr>detail = Val (target_value e), amount = Undefined\<rparr>]"
    if "int (length (expenses s)) \<le> i \<and> i < 4294967295"
    using that
    by (simp add: onExpenseDetailKeyup_row_update row_update_beyond_conj no_expense_props_def
        getStringValue_def)
  show "expenses (onExpenseAmountKeyup i e s) =
        spread (expenses s) @ replicate (nat i - length (expenses s)) Hole
          @ [Row \<lparr>detail = Undefined, amount = of_nullable (getNumberValue e)\<rparr>]"
    if "int (length (expenses s)) \<le> i \<and> i < 4294967295"
    using that
    by (simp add: onExpenseAmountKeyup_row_update row_update_beyond_conj no_expense_props_def)
  show "length (expenses (onExpenseDetailKeyup i e s)) = nat i + 1"
    if "int (length (expenses s)) \<le> i \<and> i < 4294967295"
    using that by (simp add: onExpenseDetailKeyup_row_update row_update_beyond_length)
  show "length (expenses (onExpenseAmountKeyup i e s)) = nat i + 1"
    if "int (length (expenses s)) \<le> i \<and> i < 4294967295"
    using that by (simp add: onExpenseAmountKeyup_row_update row_update_beyond_length)
  show "expenses (onExpenseDetailKeyup i e s) = spread (expenses s)"
    if "i < 0 \<or> int (length (expenses s)) \<le> i \<and> 4294967295 \<le> i"
    using out [OF that] by (simp add: onExpenseDetailKeyup_row_update)
  show "expenses (onExpenseAmountKeyup i e s) = spread (expenses s)"
    if "i < 0 \<or> int (length (expenses s)) \<le> i \<and> 4294967295 \<le> i"
    using out [OF that] by (simp add: onExpenseAmountKeyup_row_update)
  show "expenses (onExpenseDetailKeyup i e s) ! j = Row r"
    if "i < 0 \<or> int (length (expenses s)) \<le> i"
      and "j < length (expenses s) \<and> expenses s ! j = Row r" for j r
  proof -
    from that have "i \<noteq> int j" by linarith
    with that(2) show ?thesis
      by (simp add: onExpenseDetailKeyup_row_update row_update_keeps_rows)
  qed
  show "expenses (onExpenseAmountKeyup i e s) ! j = Row r"
    if "i < 0 \<or> int (length (expenses s)) \<le> i"
      and "j < length (expenses s) \<and> expenses s ! j = Row r" for j r
  proof -
    from that have "i \<noteq> int j" by linarith
    with that(2) show ?thesis
      by (simp add: onExpenseAmountKeyup_row_update row_update_keeps_rows)
  qed
qed

theorem row_update_outside_bounds_witness:
  "cashEntries (onCashEntryKeyup 5 Quantity
      \<lparr>target_value = ''7'', target_valueAsNumber = Finite 7\<rparr> initial_state)
     = [Row \<lparr>denomination = Val (Finite 20000), quantity = Null\<rparr>,
        Row \<lparr>denomination = Val (Finite 10000), quantity = Null\<rparr>,
        Row \<lparr>denomination = Val (Finite 2000), quantity = Null\<rparr>,
        Hole, Hole,
        Row \<lparr>denomination = Undefined, quantity = Val (Finite 7)\<rparr>]
   \<and> expenses (onExpenseDetailKeyup 1
      \<lparr>target_value = ''ice'', target_valueAsNumber = NaN\<rparr> initial_state)
     = [Row \<lparr>detail = Val [], amount = Null\<rparr>, Row \<lparr>detail = Val ''ice'', amount = Undefined\<rparr>]
   \<and> expenses (onExpenseAmountKeyup (- 1)
      \<lparr>target_value = ''15'', target_valueAsNumber = Finite 15\<rparr> initial_state)
     = [Row \<lparr>detail = Val [], amount = Null\<rparr>]
   \<and> expenses (onExpenseAmountKeyup 4294967296
      \<lparr>target_value = ''15'', target_valueAsNumber = Finite 15\<rparr> initial_state)
     = [Row \<lparr>detail = Val [], amount = Null\<rparr>]"
  using row_update_outside_bounds [where s = initial_state and i = 5 and f = Quantity
      and e = "\<lparr>target_value = ''7'', target_valueAsNumber = Finite 7\<rparr>"]
    row_update_outside_bounds [where s = initial_state and i = 1
      and e = "\<lparr>target_value = ''ice'', target_valueAsNumber = NaN\<rparr>"]
    row_update_outside_bounds [where s = initial_state and i = "- 1"
      and e = "\<lparr>target_value = ''15'', target_valueAsNumber = Finite 15\<rparr>"]
    row_update_outside_bounds [where s = initial_state and i = 4294967296
      and e = "\<lparr>target_value = ''15'', target_valueAsNumber = Finite 15\<rparr>"]
  by (simp add: initial_state_def DEFAULT_CASH_ENTRIES_def blank_expense_def spread_def
      getNumberValue_def replicate_two)

text \<open>
  A write more than one position past the end leaves holes; the next copy of the list reads
  them as \<^verbatim>\<open>undefined\<close>, and from then on the sum over the list throws.
\<close>

lemma holes_then_copy_throws:
  "cashSubtotal (onCashEntryKeyup 4 Quantity
      \<lparr>target_value = ''1'', target_valueAsNumber = Finite 1\<rparr> initial_state) = Some (Finite 0)
   \<and> cashSubtotal (addCashEntry
        (onCashEntryKeyup 4 Quantity \<lparr>target_value = ''1'', target_valueAsNumber = Finite 1\<rparr>
           initial_state)) = None"
  by (simp add: cashSubtotal_def addCashEntry_def onCashEntryKeyup_def initial_state_def
      DEFAULT_CASH_ENTRIES_def spread_def js_set_def js_get_def getNumberValue_def
      no_cash_props_def Let_def number_eval)

end
